theory Spec2Isabelle
  imports Main "HOL-Library.Char_ord" "HOL-Library.List_Lexorder" "HOL-Library.Multiset"
begin

section \<open>Python values and errors\<close>

text \<open>
  The scraper works on decoded JSON: \<^verbatim>\<open>None\<close>, booleans, integers, strings, lists and
  dictionaries. A dictionary is an association list in insertion order; a lookup takes the
  first binding of a key, and a dictionary built by Python has every key once. Numbers with
  a fractional part are left out.
\<close>

datatype json =
    JNull
  | JBool bool
  | JInt int
  | JStr string
  | JArr "json list"
  | JObj "(string \<times> json) list"

text \<open>
  The exceptions the modelled code can raise. \<open>SystemExit\<close> is what \<^verbatim>\<open>sys.exit\<close> raises;
  \<open>HTTPError\<close> is \<^verbatim>\<open>requests.HTTPError\<close> with the status code; \<open>RequestException\<close>
  stands for the other exceptions of the HTTP library (connection failure, undecodable
  body); \<open>IntegrityError\<close> and \<open>DatabaseError\<close> are those of \<^verbatim>\<open>sqlite3\<close>, and
  \<open>BindError\<close> is the one \<^verbatim>\<open>sqlite3\<close> raises for a parameter of a type it cannot bind.
\<close>

datatype error =
    AttributeError
  | TypeError
  | ValueError
  | SystemExit int
  | HTTPError int
  | RequestException
  | OverflowError
  | IntegrityError
  | BindError
  | DatabaseError

definition bnd :: "error + 'a \<Rightarrow> ('a \<Rightarrow> error + 'b) \<Rightarrow> error + 'b" where
  "bnd m f = (case m of Inl e \<Rightarrow> Inl e | Inr x \<Rightarrow> f x)"

fun truthy :: "json \<Rightarrow> bool" where
  "truthy JNull = False"
| "truthy (JBool b) = b"
| "truthy (JInt n) = (n \<noteq> 0)"
| "truthy (JStr s) = (s \<noteq> [])"
| "truthy (JArr xs) = (xs \<noteq> [])"
| "truthy (JObj kvs) = (kvs \<noteq> [])"


fun is_obj :: "json \<Rightarrow> bool" where
  "is_obj (JObj kvs) = True"
| "is_obj _ = False"

fun is_arr :: "json \<Rightarrow> bool" where
  "is_arr (JArr xs) = True"
| "is_arr _ = False"

text \<open>\<^verbatim>\<open>d.get(k, default)\<close> on a dictionary, and on any value: only a dictionary has \<^verbatim>\<open>get\<close>.\<close>

definition dict_get :: "(string \<times> json) list \<Rightarrow> string \<Rightarrow> json \<Rightarrow> json" where
  "dict_get kvs k d = (case map_of kvs k of None \<Rightarrow> d | Some v \<Rightarrow> v)"

definition py_get :: "json \<Rightarrow> string \<Rightarrow> json \<Rightarrow> error + json" where
  "py_get x k d = (case x of JObj kvs \<Rightarrow> Inr (dict_get kvs k d) | _ \<Rightarrow> Inl AttributeError)"

text \<open>
  \<^verbatim>\<open>str\<close> and \<^verbatim>\<open>repr\<close>. The escapes of \<open>repr_char\<close> are those of an ASCII string; a byte
  above 127 is kept, as Python keeps a printable character outside ASCII.
\<close>

fun digits :: "nat \<Rightarrow> string" where
  "digits n = (if n < 10 then [char_of (48 + n)] else digits (n div 10) @ [char_of (48 + n mod 10)])"

definition str_int :: "int \<Rightarrow> string" where
  "str_int i = (if i < 0 then CHR ''-'' # digits (nat (- i)) else digits (nat i))"

definition hex_digit :: "nat \<Rightarrow> char" where
  "hex_digit n = (if n < 10 then char_of (48 + n) else char_of (87 + n))"

definition repr_char :: "char \<Rightarrow> char \<Rightarrow> string" where
  "repr_char quote c =
     (if c = quote \<or> c = CHR 0x5C then [CHR 0x5C, c]
      else if c = CHR 0x09 then [CHR 0x5C, CHR ''t'']
      else if c = CHR 0x0A then [CHR 0x5C, CHR ''n'']
      else if c = CHR 0x0D then [CHR 0x5C, CHR ''r'']
      else if of_char c < (32::nat) \<or> c = CHR 0x7F
        then [CHR 0x5C, CHR ''x'', hex_digit (of_char c div 16), hex_digit (of_char c mod 16)]
      else [c])"

definition repr_str :: "string \<Rightarrow> string" where
  "repr_str s =
     (let quote = (if CHR 0x27 \<in> set s \<and> CHR 0x22 \<notin> set s then CHR 0x22 else CHR 0x27)
      in quote # concat (map (repr_char quote) s) @ [quote])"

fun join_with :: "string \<Rightarrow> string list \<Rightarrow> string" where
  "join_with sep [] = []"
| "join_with sep [x] = x"
| "join_with sep (x # y # ys) = x @ sep @ join_with sep (y # ys)"

fun py_repr :: "json \<Rightarrow> string"
  and repr_items :: "json list \<Rightarrow> string list"
  and repr_pairs :: "(string \<times> json) list \<Rightarrow> string list" where
  "py_repr JNull = ''None''"
| "py_repr (JBool b) = (if b then ''True'' else ''False'')"
| "py_repr (JInt i) = str_int i"
| "py_repr (JStr s) = repr_str s"
| "py_repr (JArr xs) = ''['' @ join_with '', '' (repr_items xs) @ '']''"
| "py_repr (JObj kvs) = ''{'' @ join_with '', '' (repr_pairs kvs) @ ''}''"
| "repr_items [] = []"
| "repr_items (x # xs) = py_repr x # repr_items xs"
| "repr_pairs [] = []"
| "repr_pairs ((k, v) # kvs) = (repr_str k @ '': '' @ py_repr v) # repr_pairs kvs"

definition py_str :: "json \<Rightarrow> string" where
  "py_str v = (case v of JStr s \<Rightarrow> s | _ \<Rightarrow> py_repr v)"

lemma bnd_Inr [simp]: "bnd (Inr x) f = f x"
  by (simp add: bnd_def)

lemma bnd_Inl [simp]: "bnd (Inl e) f = Inl e"
  by (simp add: bnd_def)

lemma bnd_return [simp]: "bnd m Inr = m"
  by (cases m) simp_all





section \<open>The document flattener: \<^verbatim>\<open>_adf_to_text\<close>\<close>

text \<open>
  \<^verbatim>\<open>extract_text\<close> appends to the list \<^verbatim>\<open>text_parts\<close>; the model returns the parts it
  appends, in order. The part of a \<^verbatim>\<open>text\<close> node is whatever its \<^verbatim>\<open>text\<close> field holds, so
  the parts are values, and \<^verbatim>\<open>"".join\<close> raises \<open>TypeError\<close> on a part that is no string.
  \<open>extract_content\<close> is \<^verbatim>\<open>content = node.get("content", []); if content: extract_text(content)\<close>,
  written as a walk over the bindings (lemma \<open>extract_content_get\<close>). The interpreter's
  limit on the depth of recursion is not modelled.
\<close>

fun extract_text :: "json \<Rightarrow> error + json list"
  and extract_items :: "json list \<Rightarrow> error + json list"
  and extract_content :: "(string \<times> json) list \<Rightarrow> error + json list" where
  "extract_text (JStr s) = Inr [JStr s]"
| "extract_text (JArr items) = extract_items items"
| "extract_text (JObj kvs) =
     bnd (if dict_get kvs ''type'' JNull = JStr ''text''
            then Inr [dict_get kvs ''text'' (JStr '''')]
          else if dict_get kvs ''type'' JNull = JStr ''hardBreak''
            then Inr [JStr [CHR 0x0A]]
          else if dict_get kvs ''type'' JNull = JStr ''mention''
            then bnd (py_get (dict_get kvs ''attrs'' (JObj [])) ''text'' (JStr ''user''))
                   (\<lambda>t. Inr [JStr (CHR ''@'' # py_str t)])
          else Inr [])
       (\<lambda>own. bnd (extract_content kvs) (\<lambda>inner. Inr (own @ inner)))"
| "extract_text JNull = Inr []"
| "extract_text (JBool b) = Inr []"
| "extract_text (JInt i) = Inr []"
| "extract_items [] = Inr []"
| "extract_items (item # items) =
     bnd (extract_text item) (\<lambda>a. bnd (extract_items items) (\<lambda>b. Inr (a @ b)))"
| "extract_content [] = Inr []"
| "extract_content ((k, v) # kvs) =
     (if k = ''content'' then (if truthy v then extract_text v else Inr [])
      else extract_content kvs)"

fun str_join :: "json list \<Rightarrow> error + string" where
  "str_join [] = Inr []"
| "str_join (JStr s # ps) = bnd (str_join ps) (\<lambda>r. Inr (s @ r))"
| "str_join (_ # ps) = Inl TypeError"

definition adf_to_text :: "json \<Rightarrow> error + string" where
  "adf_to_text adf =
     (case adf of
        JObj kvs \<Rightarrow> bnd (extract_text adf) str_join
      | _ \<Rightarrow> Inr (py_str adf))"





lemma extract_content_get:
  "extract_content kvs =
     (if truthy (dict_get kvs ''content'' (JArr []))
      then extract_text (dict_get kvs ''content'' (JArr [])) else Inr [])"
  by (induction kvs) (auto simp: dict_get_def)


















section \<open>Custom fields: \<^verbatim>\<open>_extract_custom_fields\<close>\<close>

text \<open>
  The loop over \<^verbatim>\<open>fields.items()\<close> builds the dictionary \<^verbatim>\<open>custom\<close>; \<open>project_value\<close> is
  the body of the loop for one selected value, and \<open>project_elem\<close> the expression
  \<^verbatim>\<open>v.get("value") or v.get("name") or v\<close> of the comprehension.
\<close>

definition startswith :: "string \<Rightarrow> string \<Rightarrow> bool" where
  "startswith s p = (take (length p) s = p)"

fun dict_set :: "(string \<times> json) list \<Rightarrow> string \<Rightarrow> json \<Rightarrow> (string \<times> json) list" where
  "dict_set [] k v = [(k, v)]"
| "dict_set ((k', v') # kvs) k v = (if k' = k then (k, v) # kvs else (k', v') # dict_set kvs k v)"

definition project_elem :: "json \<Rightarrow> error + json" where
  "project_elem v =
     bnd (py_get v ''value'' JNull) (\<lambda>a.
       if truthy a then Inr a
       else bnd (py_get v ''name'' JNull) (\<lambda>b. if truthy b then Inr b else Inr v))"

fun project_elems :: "json list \<Rightarrow> error + json list" where
  "project_elems [] = Inr []"
| "project_elems (v # vs) =
     bnd (project_elem v) (\<lambda>a. bnd (project_elems vs) (\<lambda>as. Inr (a # as)))"

definition project_value :: "json \<Rightarrow> error + json" where
  "project_value val =
     (case val of
        JObj kvs \<Rightarrow>
          (case map_of kvs ''value'' of
             Some x \<Rightarrow> Inr x
           | None \<Rightarrow> (case map_of kvs ''name'' of Some y \<Rightarrow> Inr y | None \<Rightarrow> Inr val))
      | JArr [] \<Rightarrow> Inr val
      | JArr (v0 # vs) \<Rightarrow>
          (if is_obj v0 then bnd (project_elems (v0 # vs)) (\<lambda>as. Inr (JArr as)) else Inr val)
      | _ \<Rightarrow> Inr val)"

fun custom_loop :: "(string \<times> json) list \<Rightarrow> (string \<times> json) list \<Rightarrow> error + (string \<times> json) list" where
  "custom_loop [] custom = Inr custom"
| "custom_loop ((key, val) # items) custom =
     (if startswith key ''customfield_'' \<and> val \<noteq> JNull
      then bnd (project_value val) (\<lambda>p. custom_loop items (dict_set custom key p))
      else custom_loop items custom)"

definition extract_custom_fields :: "json \<Rightarrow> error + (string \<times> json) list" where
  "extract_custom_fields fields =
     (case fields of JObj kvs \<Rightarrow> custom_loop kvs [] | _ \<Rightarrow> Inl AttributeError)"




lemma map_of_dict_set: "map_of (dict_set kvs k v) = (map_of kvs)(k \<mapsto> v)"
  by (induction kvs) auto


















section \<open>The HTTP client: \<^verbatim>\<open>_api_get\<close> and \<^verbatim>\<open>get_issue_comments\<close>\<close>

text \<open>
  The remote source is a transport: a function from its own state \<open>'w\<close>, the endpoint and
  the query parameters to the outcome of \<^verbatim>\<open>session.get\<close> and the next state. A response
  carries its status code, its \<^verbatim>\<open>Retry-After\<close> header if it has one, its text, and its body
  decoded as JSON, if it can be decoded. What the client prints and how long it sleeps is
  kept as a list of events.
\<close>

record response =
  status_code :: int
  retry_after :: "string option"
  body_text :: string
  body_json :: "json option"

type_synonym params = "(string \<times> json) list"

type_synonym 'w transport = "'w \<Rightarrow> string \<Rightarrow> params option \<Rightarrow> (error + response) \<times> 'w"

datatype event =
    Slept nat
  | RateLimited int nat nat
  | AuthFailed string
  | Forbidden string
  | RequestFailed int string string
  | MaxRetries nat string
  | TotalToFetch json
  | PageFetched nat nat nat json
  | DoneAll json
  | WarnEmptyPage nat json

type_synonym 'w io = "'w \<times> event list"

definition emit :: "event list \<Rightarrow> 'w io \<Rightarrow> 'w io" where
  "emit es st = (fst st, snd st @ es)"

text \<open>\<^verbatim>\<open>int(s)\<close> on a header: blanks around, a sign, decimal digits with single underscores between.\<close>

definition is_blank :: "char \<Rightarrow> bool" where
  "is_blank c = (c \<in> set [CHR '' '', CHR 0x09, CHR 0x0A, CHR 0x0B, CHR 0x0C, CHR 0x0D])"

definition is_digit :: "char \<Rightarrow> bool" where
  "is_digit c = (CHR ''0'' \<le> c \<and> c \<le> CHR ''9'')"

fun digit_groups :: "string \<Rightarrow> bool" where
  "digit_groups [] = False"
| "digit_groups [c] = is_digit c"
| "digit_groups (c # d # cs) =
     (is_digit c \<and> (if d = CHR ''_'' then digit_groups cs else digit_groups (d # cs)))"

definition digits_value :: "string \<Rightarrow> int" where
  "digits_value cs = foldl (\<lambda>acc c. 10 * acc + (int (of_char c) - 48)) 0 (filter is_digit cs)"

definition py_int :: "string \<Rightarrow> error + int" where
  "py_int s =
     (let t = rev (dropWhile is_blank (rev (dropWhile is_blank s)));
          neg = (t \<noteq> [] \<and> hd t = CHR ''-'');
          u = (if t \<noteq> [] \<and> (hd t = CHR ''-'' \<or> hd t = CHR ''+'') then tl t else t)
      in if digit_groups u then Inr (if neg then - digits_value u else digits_value u)
         else Inl ValueError)"

definition response_ok :: "response \<Rightarrow> bool" where
  "response_ok r = (\<not> (400 \<le> status_code r \<and> status_code r < 600))"

text \<open>
  The loop \<^verbatim>\<open>for attempt in range(max_retries)\<close>: \<open>left\<close> attempts remain, \<open>attempt\<close> is the
  loop variable.
\<close>

fun api_attempts :: "'w transport \<Rightarrow> string \<Rightarrow> params option \<Rightarrow> nat \<Rightarrow> nat \<Rightarrow> nat \<Rightarrow> 'w io
    \<Rightarrow> (error + json) \<times> 'w io" where
  "api_attempts tr endpoint ps max_retries 0 attempt st =
     (Inl (SystemExit 1), emit [MaxRetries max_retries endpoint] st)"
| "api_attempts tr endpoint ps max_retries (Suc left) attempt st =
     (case tr (fst st) endpoint ps of
        (Inl e, w) \<Rightarrow> (Inl e, (w, snd st))
      | (Inr r, w) \<Rightarrow>
          if status_code r = 429 then
            (case (case retry_after r of None \<Rightarrow> Inr 10 | Some h \<Rightarrow> py_int h) of
               Inl e \<Rightarrow> (Inl e, (w, snd st))
             | Inr suggested \<Rightarrow>
                 let wait_time = max suggested (2 ^ attempt)
                 in api_attempts tr endpoint ps max_retries left (Suc attempt)
                      (emit [RateLimited wait_time (attempt + 1) max_retries,
                             Slept (nat (wait_time * 1000))] (w, snd st)))
          else if status_code r = 401 then
            (Inl (SystemExit 1), emit [AuthFailed (body_text r)] (w, snd st))
          else if status_code r = 403 then
            (Inl (SystemExit 1), emit [Forbidden (body_text r)] (w, snd st))
          else if \<not> response_ok r then
            (Inl (HTTPError (status_code r)),
             emit [RequestFailed (status_code r) endpoint (body_text r)] (w, snd st))
          else
            (case body_json r of
               None \<Rightarrow> (Inl RequestException, (w, snd st))
             | Some data \<Rightarrow> (Inr data, (w, snd st))))"

definition api_get :: "'w transport \<Rightarrow> string \<Rightarrow> params option \<Rightarrow> nat \<Rightarrow> 'w io \<Rightarrow> (error + json) \<times> 'w io" where
  "api_get tr endpoint ps max_retries st = api_attempts tr endpoint ps max_retries max_retries 0 st"

definition get_issue_comments :: "'w transport \<Rightarrow> json \<Rightarrow> 'w io \<Rightarrow> (error + json) \<times> 'w io" where
  "get_issue_comments tr issue_key st =
     (case api_get tr (''issue/'' @ py_str issue_key @ ''/comment'') None 5 (emit [Slept 100] st) of
        (Inl (HTTPError c), st') \<Rightarrow> (Inr (JArr []), st')
      | (Inl e, st') \<Rightarrow> (Inl e, st')
      | (Inr data, st') \<Rightarrow> (py_get data ''comments'' (JArr []), st'))"

text \<open>A source that answers every request with the same response.\<close>

definition answering :: "response \<Rightarrow> unit transport" where
  "answering r = (\<lambda>w endpoint ps. (Inr r, w))"

definition status_only :: "int \<Rightarrow> response" where
  "status_only c = \<lparr>status_code = c, retry_after = None, body_text = [], body_json = None\<rparr>"


section \<open>Normalization: \<^verbatim>\<open>process_issue\<close>\<close>

text \<open>
  Iterating a value: a list yields its elements, a dictionary its keys, a string its
  characters; anything else raises \<open>TypeError\<close>.
\<close>

definition py_iter :: "json \<Rightarrow> error + json list" where
  "py_iter v =
     (case v of
        JArr xs \<Rightarrow> Inr xs
      | JObj kvs \<Rightarrow> Inr (map (\<lambda>kv. JStr (fst kv)) kvs)
      | JStr s \<Rightarrow> Inr (map (\<lambda>c. JStr [c]) s)
      | _ \<Rightarrow> Inl TypeError)"

fun map_err :: "('a \<Rightarrow> error + 'b) \<Rightarrow> 'a list \<Rightarrow> error + 'b list" where
  "map_err f [] = Inr []"
| "map_err f (x # xs) = bnd (f x) (\<lambda>y. bnd (map_err f xs) (\<lambda>ys. Inr (y # ys)))"

text \<open>
  A dictionary display evaluates its values in order; the first one that raises ends the
  evaluation.
\<close>

fun obj_of :: "(string \<times> (error + json)) list \<Rightarrow> error + (string \<times> json) list" where
  "obj_of [] = Inr []"
| "obj_of ((k, m) # rest) = bnd m (\<lambda>v. bnd (obj_of rest) (\<lambda>kvs. Inr ((k, v) # kvs)))"

definition dict_of :: "(string \<times> (error + json)) list \<Rightarrow> error + json" where
  "dict_of entries = bnd (obj_of entries) (\<lambda>kvs. Inr (JObj kvs))"

text \<open>\<^verbatim>\<open>x.get(k1, {}).get(k2)\<close> and \<^verbatim>\<open>x.get(k1, {}).get(k2, {}).get(k3)\<close>.\<close>

definition get2 :: "json \<Rightarrow> string \<Rightarrow> string \<Rightarrow> error + json" where
  "get2 x k1 k2 = bnd (py_get x k1 (JObj [])) (\<lambda>a. py_get a k2 JNull)"

definition get3 :: "json \<Rightarrow> string \<Rightarrow> string \<Rightarrow> string \<Rightarrow> error + json" where
  "get3 x k1 k2 k3 =
     bnd (py_get x k1 (JObj [])) (\<lambda>a. bnd (py_get a k2 (JObj [])) (\<lambda>b. py_get b k3 JNull))"

text \<open>\<^verbatim>\<open>e if x.get(k) else None\<close>.\<close>

definition if_present :: "json \<Rightarrow> string \<Rightarrow> (error + json) \<Rightarrow> error + json" where
  "if_present x k e = bnd (py_get x k JNull) (\<lambda>c. if truthy c then e else Inr JNull)"

definition extract_user_info :: "json \<Rightarrow> error + json" where
  "extract_user_info user_data =
     (if \<not> truthy user_data then Inr JNull
      else dict_of
        [(''accountId'', py_get user_data ''accountId'' JNull),
         (''displayName'', py_get user_data ''displayName'' JNull),
         (''emailAddress'', py_get user_data ''emailAddress'' JNull)])"

definition extract_comment_info :: "json \<Rightarrow> error + json" where
  "extract_comment_info comment =
     bnd (py_get comment ''body'' (JObj [])) (\<lambda>body.
     bnd (if is_obj body then adf_to_text body else Inr (py_str body)) (\<lambda>body_text.
     dict_of
       [(''id'', py_get comment ''id'' JNull),
        (''author'', bnd (py_get comment ''author'' JNull) extract_user_info),
        (''body'', Inr (JStr body_text)),
        (''bodyRaw'', py_get comment ''body'' JNull),
        (''created'', py_get comment ''created'' JNull),
        (''updated'', py_get comment ''updated'' JNull)]))"

definition change_of :: "json \<Rightarrow> json \<Rightarrow> error + json" where
  "change_of history item =
     dict_of
       [(''field'', py_get item ''field'' JNull),
        (''fieldtype'', py_get item ''fieldtype'' JNull),
        (''from'', py_get item ''fromString'' JNull),
        (''to'', py_get item ''toString'' JNull),
        (''author'', bnd (py_get history ''author'' JNull) extract_user_info),
        (''created'', py_get history ''created'' JNull)]"

definition changes_of :: "json \<Rightarrow> error + json list" where
  "changes_of history =
     bnd (py_get history ''items'' (JArr [])) (\<lambda>items.
     bnd (py_iter items) (map_err (change_of history)))"

definition extract_changelog :: "json \<Rightarrow> error + json" where
  "extract_changelog issue =
     bnd (py_get issue ''changelog'' (JObj [])) (\<lambda>changelog.
     bnd (py_get changelog ''histories'' (JArr [])) (\<lambda>histories.
     bnd (py_iter histories) (\<lambda>hs.
     bnd (map_err changes_of hs) (\<lambda>css. Inr (JArr (concat css))))))"

text \<open>\<^verbatim>\<open>[c.get("name") for c in fields.get(k, [])]\<close>.\<close>

definition names_of :: "json \<Rightarrow> string \<Rightarrow> error + json" where
  "names_of flds k =
     bnd (py_get flds k (JArr [])) (\<lambda>xs.
     bnd (py_iter xs) (\<lambda>cs.
     bnd (map_err (\<lambda>c. py_get c ''name'' JNull) cs) (\<lambda>ns. Inr (JArr ns))))"

definition list_of :: "json \<Rightarrow> (json \<Rightarrow> error + json) \<Rightarrow> error + json" where
  "list_of xs f = bnd (py_iter xs) (\<lambda>cs. bnd (map_err f cs) (\<lambda>ys. Inr (JArr ys)))"

text \<open>
  \<open>normalize\<close> is the body of \<^verbatim>\<open>process_issue\<close> after the comments are fetched:
  \<open>now\<close> is the timestamp the clock gives, \<open>issue_key\<close> and \<open>flds\<close> are the locals
  \<^verbatim>\<open>issue_key\<close> and \<^verbatim>\<open>fields\<close>, \<open>comments\<close> is what \<^verbatim>\<open>get_issue_comments\<close> returned.
\<close>

definition normalize :: "string \<Rightarrow> json \<Rightarrow> json \<Rightarrow> json \<Rightarrow> json \<Rightarrow> error + json" where
  "normalize now issue issue_key flds comments =
     bnd (py_get flds ''description'' (JObj [])) (\<lambda>description.
     bnd (if is_obj description then adf_to_text description
          else Inr (if truthy description then py_str description else [])) (\<lambda>description_text.
     dict_of
       [(''key'', Inr issue_key),
        (''id'', py_get issue ''id'' JNull),
        (''self'', py_get issue ''self'' JNull),
        (''summary'', py_get flds ''summary'' JNull),
        (''description'', Inr (JStr description_text)),
        (''descriptionRaw'', py_get flds ''description'' JNull),
        (''status'', dict_of
           [(''name'', get2 flds ''status'' ''name''),
            (''category'', get3 flds ''status'' ''statusCategory'' ''name'')]),
        (''priority'', dict_of
           [(''name'', if_present flds ''priority'' (get2 flds ''priority'' ''name''))]),
        (''issueType'', dict_of
           [(''name'', get2 flds ''issuetype'' ''name''),
            (''subtask'', get2 flds ''issuetype'' ''subtask'')]),
        (''project'', dict_of
           [(''key'', get2 flds ''project'' ''key''),
            (''name'', get2 flds ''project'' ''name'')]),
        (''creator'', bnd (py_get flds ''creator'' JNull) extract_user_info),
        (''reporter'', bnd (py_get flds ''reporter'' JNull) extract_user_info),
        (''assignee'', bnd (py_get flds ''assignee'' JNull) extract_user_info),
        (''created'', py_get flds ''created'' JNull),
        (''updated'', py_get flds ''updated'' JNull),
        (''resolved'', py_get flds ''resolutiondate'' JNull),
        (''resolution'', if_present flds ''resolution'' (get2 flds ''resolution'' ''name'')),
        (''labels'', py_get flds ''labels'' (JArr [])),
        (''components'', names_of flds ''components''),
        (''fixVersions'', names_of flds ''fixVersions''),
        (''affectsVersions'', names_of flds ''versions''),
        (''comments'', list_of comments extract_comment_info),
        (''changelog'', extract_changelog issue),
        (''subtasks'', bnd (py_get flds ''subtasks'' (JArr [])) (\<lambda>sts.
           list_of sts (\<lambda>st. dict_of
             [(''key'', py_get st ''key'' JNull),
              (''summary'', get2 st ''fields'' ''summary'')]))),
        (''parent'', if_present flds ''parent'' (dict_of
           [(''key'', get2 flds ''parent'' ''key''),
            (''summary'', get3 flds ''parent'' ''fields'' ''summary'')])),
        (''links'', bnd (py_get flds ''issuelinks'' (JArr [])) (\<lambda>ls.
           list_of ls (\<lambda>link. dict_of
             [(''type'', get2 link ''type'' ''name''),
              (''inward'', get2 link ''inwardIssue'' ''key''),
              (''outward'', get2 link ''outwardIssue'' ''key'')]))),
        (''customFields'', bnd (extract_custom_fields flds) (\<lambda>c. Inr (JObj c))),
        (''_exportedAt'', Inr (JStr now))]))"

definition process_issue :: "'w transport \<Rightarrow> string \<Rightarrow> json \<Rightarrow> 'w io \<Rightarrow> (error + json) \<times> 'w io" where
  "process_issue tr now issue st =
     (case issue of
        JObj kvs \<Rightarrow>
          (case get_issue_comments tr (dict_get kvs ''key'' JNull) st of
             (Inl e, st') \<Rightarrow> (Inl e, st')
           | (Inr comments, st') \<Rightarrow>
               (normalize now issue (dict_get kvs ''key'' JNull) (dict_get kvs ''fields'' (JObj [])) comments,
                st'))
      | _ \<Rightarrow> (Inl AttributeError, st))"

definition no_comments :: "unit transport" where
  "no_comments = answering \<lparr>status_code = 200, retry_after = None, body_text = [],
     body_json = Some (JObj [(''comments'', JArr [])])\<rparr>"



lemma api_attempts_first:
  assumes "tr w endpoint ps = (Inr r, w')" "status_code r \<noteq> 429"
  shows "fst (api_attempts tr endpoint ps m (Suc left) attempt (w, lg)) =
     (if status_code r = 401 \<or> status_code r = 403 then Inl (SystemExit 1)
      else if \<not> response_ok r then Inl (HTTPError (status_code r))
      else (case body_json r of None \<Rightarrow> Inl RequestException | Some d \<Rightarrow> Inr d))"
  using assms by (simp add: emit_def split: option.splits)

lemma api_get_first:
  assumes "tr w endpoint ps = (Inr r, w')" "status_code r \<noteq> 429"
  shows "fst (api_get tr endpoint ps 5 (w, lg)) =
     (if status_code r = 401 \<or> status_code r = 403 then Inl (SystemExit 1)
      else if \<not> response_ok r then Inl (HTTPError (status_code r))
      else (case body_json r of None \<Rightarrow> Inl RequestException | Some d \<Rightarrow> Inr d))"
proof -
  have eq: "api_attempts tr endpoint ps 5 5 0 (w, lg) = api_attempts tr endpoint ps 5 (Suc 4) 0 (w, lg)"
    by simp
  show ?thesis
    unfolding api_get_def eq by (rule api_attempts_first [of tr w endpoint ps r w', OF assms])
qed

lemma always_limited:
  assumes "\<forall>w. \<exists>r w'. tr w endpoint ps = (Inr r, w') \<and> status_code r = 429 \<and> retry_after r = None"
  shows "fst (api_attempts tr endpoint ps m left attempt st) = Inl (SystemExit 1)"
proof (induction left arbitrary: attempt st)
  case 0
  then show ?case by simp
next
  case (Suc left)
  from assms obtain r w' where "tr (fst st) endpoint ps = (Inr r, w')" "status_code r = 429"
    "retry_after r = None" by blast
  with Suc show ?case by (simp add: Let_def)
qed

lemma comments_of_api:
  "fst (get_issue_comments tr key st) =
     (case fst (api_get tr (''issue/'' @ py_str key @ ''/comment'') None 5 (emit [Slept 100] st)) of
        Inl (HTTPError c) \<Rightarrow> Inr (JArr [])
      | Inl e \<Rightarrow> Inl e
      | Inr data \<Rightarrow> py_get data ''comments'' (JArr []))"
  by (simp add: get_issue_comments_def split: prod.splits sum.splits error.splits)

lemma process_of_comments:
  "fst (get_issue_comments tr (dict_get kvs ''key'' JNull) st) = Inr comments \<Longrightarrow>
   fst (process_issue tr now (JObj kvs) st) =
     normalize now (JObj kvs) (dict_get kvs ''key'' JNull) (dict_get kvs ''fields'' (JObj [])) comments"
  by (auto simp: process_issue_def split: prod.splits sum.splits)

text \<open>
  C4, as amended. When the answer to the comments request of a ticket is a status from 400
  to 599 other than 401, 403 and 429, \<^verbatim>\<open>get_issue_comments\<close> returns the empty list, and
  \<^verbatim>\<open>process_issue\<close> returns what normalization gives on the empty list of comments. When
  the answer is 401 or 403, and when every answer is 429, \<^verbatim>\<open>get_issue_comments\<close> raises
  \<open>SystemExit\<close> with status 1, which ends the run.
\<close>

theorem comments_fetch_failure:
  assumes "tr w (''issue/'' @ py_str (dict_get kvs ''key'' JNull) @ ''/comment'') None = (Inr r, w')"
  shows
    "(400 \<le> status_code r \<and> status_code r < 600 \<and> status_code r \<notin> {401, 403, 429} \<longrightarrow>
        fst (get_issue_comments tr (dict_get kvs ''key'' JNull) (w, lg)) = Inr (JArr []) \<and>
        fst (process_issue tr now (JObj kvs) (w, lg)) =
          normalize now (JObj kvs) (dict_get kvs ''key'' JNull) (dict_get kvs ''fields'' (JObj []))
            (JArr [])) \<and>
     (status_code r \<in> {401, 403} \<longrightarrow>
        fst (get_issue_comments tr (dict_get kvs ''key'' JNull) (w, lg)) = Inl (SystemExit 1) \<and>
        fst (process_issue tr now (JObj kvs) (w, lg)) = Inl (SystemExit 1)) \<and>
     ((\<forall>u. \<exists>q u'. tr u (''issue/'' @ py_str (dict_get kvs ''key'' JNull) @ ''/comment'') None = (Inr q, u') \<and>
              status_code q = 429 \<and> retry_after q = None) \<longrightarrow>
        fst (get_issue_comments tr (dict_get kvs ''key'' JNull) (w, lg)) = Inl (SystemExit 1) \<and>
        fst (process_issue tr now (JObj kvs) (w, lg)) = Inl (SystemExit 1))"
proof -
  let ?key = "dict_get kvs ''key'' JNull"
  let ?ep = "''issue/'' @ py_str ?key @ ''/comment''"
  have exit: "fst (process_issue tr now (JObj kvs) (w, lg)) = Inl (SystemExit 1)"
    if "fst (get_issue_comments tr ?key (w, lg)) = Inl (SystemExit 1)"
    using that by (auto simp: process_issue_def split: prod.splits sum.splits)
  have soft: "fst (get_issue_comments tr ?key (w, lg)) = Inr (JArr [])"
    if c: "400 \<le> status_code r \<and> status_code r < 600 \<and> status_code r \<notin> {401, 403, 429}"
  proof -
    from c have "fst (api_get tr ?ep None 5 (emit [Slept 100] (w, lg))) = Inl (HTTPError (status_code r))"
      using api_get_first [of tr w ?ep None r w' "lg @ [Slept 100]"] assms
      by (simp add: emit_def response_ok_def)
    then show ?thesis by (simp add: comments_of_api)
  qed
  have fatal: "fst (get_issue_comments tr ?key (w, lg)) = Inl (SystemExit 1)"
    if c: "status_code r \<in> {401, 403}"
  proof -
    from c have "fst (api_get tr ?ep None 5 (emit [Slept 100] (w, lg))) = Inl (SystemExit 1)"
      using api_get_first [of tr w ?ep None r w' "lg @ [Slept 100]"] assms
      by (auto simp: emit_def)
    then show ?thesis by (simp add: comments_of_api)
  qed
  have limited: "fst (get_issue_comments tr ?key (w, lg)) = Inl (SystemExit 1)"
    if c: "\<forall>u. \<exists>q u'. tr u ?ep None = (Inr q, u') \<and> status_code q = 429 \<and> retry_after q = None"
  proof -
    have "fst (api_get tr ?ep None 5 (emit [Slept 100] (w, lg))) = Inl (SystemExit 1)"
      unfolding api_get_def by (rule always_limited [of tr ?ep None, OF c])
    then show ?thesis by (simp add: comments_of_api)
  qed
  from soft fatal limited exit process_of_comments [of tr kvs "(w, lg)" "JArr []" now]
  show ?thesis by blast
qed


definition bare_kvs :: "(string \<times> json) list" where
  "bare_kvs = [(''key'', JStr ''P-1''), (''fields'', JObj [(''summary'', JStr ''s'')])]"

lemma normalize_bare:
  "bnd (normalize ''T'' (JObj bare_kvs) (JStr ''P-1'') (JObj [(''summary'', JStr ''s'')]) (JArr []))
     (\<lambda>p. py_get p ''comments'' JNull) = Inr (JArr [])"
  by code_simp

theorem comments_fetch_failure_witness:
  "answering (status_only 404) () ''issue/P-1/comment'' None = (Inr (status_only 404), ()) \<and>
   fst (get_issue_comments (answering (status_only 404)) (JStr ''P-1'') ((), [])) = Inr (JArr []) \<and>
   bnd (fst (process_issue (answering (status_only 404)) ''T'' (JObj bare_kvs) ((), [])))
     (\<lambda>p. py_get p ''comments'' JNull) = Inr (JArr []) \<and>
   fst (process_issue (answering (status_only 401)) ''T'' (JObj bare_kvs) ((), [])) = Inl (SystemExit 1) \<and>
   fst (process_issue (answering (status_only 429)) ''T'' (JObj bare_kvs) ((), [])) = Inl (SystemExit 1)"
proof -
  have k: "dict_get bare_kvs ''key'' JNull = JStr ''P-1''"
    "dict_get bare_kvs ''fields'' (JObj []) = JObj [(''summary'', JStr ''s'')]"
    by (simp_all add: bare_kvs_def dict_get_def)
  have ep: "''issue/'' @ py_str (JStr ''P-1'') @ ''/comment'' = ''issue/P-1/comment''"
    by (simp add: py_str_def)
  have a: "answering (status_only c) () ''issue/P-1/comment'' None = (Inr (status_only c), ())" for c
    by (simp add: answering_def)
  have s: "status_code (status_only c) = c" "retry_after (status_only c) = None" for c
    by (simp_all add: status_only_def)
  have every: "\<forall>u. \<exists>q u'. answering (status_only 429) u ''issue/P-1/comment'' None = (Inr q, u') \<and>
      status_code q = 429 \<and> retry_after q = None"
    by (simp add: answering_def status_only_def)
  from comments_fetch_failure [of "answering (status_only 404)" "()" bare_kvs "status_only 404" "()" "[]" "''T''"]
    comments_fetch_failure [of "answering (status_only 401)" "()" bare_kvs "status_only 401" "()" "[]" "''T''"]
    comments_fetch_failure [of "answering (status_only 429)" "()" bare_kvs "status_only 429" "()" "[]" "''T''"]
    k ep a s every normalize_bare
  show ?thesis by simp
qed

text \<open>
  C4 as stated fails: when the comments request is answered 401, 403, or 429 on every
  attempt, \<^verbatim>\<open>get_issue_comments\<close> does not return an empty collection; it raises
  \<open>SystemExit\<close>, which its handler for \<open>HTTPError\<close> does not catch.
\<close>

theorem fatal_comments_fetch:
  "fst (get_issue_comments (answering (status_only 401)) (JStr ''P-1'') ((), [])) = Inl (SystemExit 1) \<and>
   fst (get_issue_comments (answering (status_only 403)) (JStr ''P-1'') ((), [])) = Inl (SystemExit 1) \<and>
   fst (get_issue_comments (answering (status_only 429)) (JStr ''P-1'') ((), [])) = Inl (SystemExit 1)"
  by code_simp

text \<open>
  C6 fails on the code. With \<^verbatim>\<open>status\<close>, \<^verbatim>\<open>issuetype\<close> or \<^verbatim>\<open>project\<close> present and null,
  \<^verbatim>\<open>fields.get(k, {})\<close> is \<^verbatim>\<open>None\<close> and the chained \<^verbatim>\<open>get\<close> raises \<open>AttributeError\<close>. With
  \<^verbatim>\<open>priority\<close>, \<^verbatim>\<open>resolution\<close> and \<^verbatim>\<open>parent\<close> null, which the code guards, and with all six
  absent, the scalars are null.
\<close>

theorem null_nested_object_raises:
  "fst (process_issue no_comments ''T''
     (JObj [(''key'', JStr ''P-1''), (''fields'', JObj [(''status'', JNull)])]) ((), [])) = Inl AttributeError \<and>
   fst (process_issue no_comments ''T''
     (JObj [(''key'', JStr ''P-1''), (''fields'', JObj [(''issuetype'', JNull)])]) ((), [])) = Inl AttributeError \<and>
   fst (process_issue no_comments ''T''
     (JObj [(''key'', JStr ''P-1''), (''fields'', JObj [(''project'', JNull)])]) ((), [])) = Inl AttributeError \<and>
   bnd (fst (process_issue no_comments ''T''
     (JObj [(''key'', JStr ''P-1''),
            (''fields'', JObj [(''priority'', JNull), (''resolution'', JNull), (''parent'', JNull)])]) ((), [])))
     (\<lambda>p. Inr (map (\<lambda>k. dict_get (case p of JObj kvs \<Rightarrow> kvs | _ \<Rightarrow> []) k (JStr ''absent''))
              [''status'', ''priority'', ''issueType'', ''project'', ''resolution'', ''parent'']))
   = Inr [JObj [(''name'', JNull), (''category'', JNull)], JObj [(''name'', JNull)],
          JObj [(''name'', JNull), (''subtask'', JNull)], JObj [(''key'', JNull), (''name'', JNull)],
          JNull, JNull]"
  by code_simp


section \<open>Offset pagination: \<^verbatim>\<open>_paginate\<close>\<close>

text \<open>
  \<^verbatim>\<open>_paginate\<close> assigns to keys of a dictionary, and its caller may hold that dictionary, so
  dictionaries of parameters live in a heap: a list of dictionaries, a reference being an
  index. The caller passes a reference or \<^verbatim>\<open>None\<close>. \<^verbatim>\<open>dict(params)\<close> and \<^verbatim>\<open>{}\<close> both build a
  new dictionary, at the end of the heap. The loop \<^verbatim>\<open>while True\<close> takes fuel: one unit for
  each pass, and the result is \<open>None\<close> when the fuel runs out before the loop ends.
\<close>

type_synonym heap = "params list"

definition py_len :: "json \<Rightarrow> error + nat" where
  "py_len v =
     (case v of
        JArr xs \<Rightarrow> Inr (length xs)
      | JObj kvs \<Rightarrow> Inr (length kvs)
      | JStr s \<Rightarrow> Inr (length s)
      | _ \<Rightarrow> Inl TypeError)"

text \<open>\<^verbatim>\<open>n >= total\<close> for an integer \<open>n\<close>: defined against an integer or a boolean.\<close>

definition ge_total :: "nat \<Rightarrow> json \<Rightarrow> error + bool" where
  "ge_total n totl =
     (case totl of
        JInt t \<Rightarrow> Inr (int n \<ge> t)
      | JBool b \<Rightarrow> Inr (int n \<ge> (if b then 1 else 0))
      | _ \<Rightarrow> Inl TypeError)"

text \<open>
  One pass of the loop after the request: from the response \<open>data\<close>, what is printed, and
  either the exception raised or the new \<^verbatim>\<open>all_results\<close>, the latched \<^verbatim>\<open>total\<close>, and
  whether the loop goes on to the next page.
\<close>

definition page_step :: "string \<Rightarrow> bool \<Rightarrow> nat \<Rightarrow> json list \<Rightarrow> json \<Rightarrow> json
    \<Rightarrow> event list \<times> (error + json list \<times> json \<times> bool)" where
  "page_step key progress page all_results totl data =
     (case (if key = ''issues'' then py_get data ''issues'' (JArr [])
            else py_get data key (JArr [])) of
        Inl e \<Rightarrow> ([], Inl e)
      | Inr results \<Rightarrow>
          (case py_iter results of
             Inl e \<Rightarrow> ([], Inl e)
           | Inr items \<Rightarrow>
               (case (if totl = JNull
                      then bnd (py_len results) (\<lambda>n. py_get data ''total'' (JInt (int n)))
                      else Inr totl) of
                  Inl e \<Rightarrow> ([], Inl e)
                | Inr total1 \<Rightarrow>
                    let acc = all_results @ items;
                        shown = (if totl = JNull \<and> progress then [TotalToFetch total1] else []) @
                                (if progress then [PageFetched page (length items) (length acc) total1] else [])
                    in (case ge_total (length acc) total1 of
                          Inl e \<Rightarrow> (shown, Inl e)
                        | Inr True \<Rightarrow>
                            (shown @ (if progress then [DoneAll total1] else []), Inr (acc, total1, False))
                        | Inr False \<Rightarrow>
                            if \<not> truthy results
                            then (shown @ (if progress then [WarnEmptyPage (length acc) total1] else []),
                                  Inr (acc, total1, False))
                            else (shown, Inr (acc, total1, True))))))"

fun paginate_loop :: "'w transport \<Rightarrow> string \<Rightarrow> nat \<Rightarrow> string \<Rightarrow> bool \<Rightarrow> nat \<Rightarrow> nat \<Rightarrow> json list \<Rightarrow> json
    \<Rightarrow> heap \<times> 'w io \<Rightarrow> (error + json list) option \<times> heap \<times> 'w io" where
  "paginate_loop tr endpoint p key progress 0 page all_results totl (h, st) = (None, h, st)"
| "paginate_loop tr endpoint p key progress (Suc fuel) page all_results totl (h, st) =
     (case api_get tr endpoint (Some (h ! p)) 5 st of
        (Inl e, st1) \<Rightarrow> (Some (Inl e), h, st1)
      | (Inr data, st1) \<Rightarrow>
          (case page_step key progress (page + 1) all_results totl data of
             (shown, Inl e) \<Rightarrow> (Some (Inl e), h, emit shown st1)
           | (shown, Inr (acc, total1, again)) \<Rightarrow>
               if again
               then paginate_loop tr endpoint p key progress fuel (page + 1) acc total1
                      (h[p := dict_set (h ! p) ''startAt'' (JInt (int (length acc)))], emit shown st1)
               else (Some (Inr acc), h, emit shown st1)))"

definition paginate :: "'w transport \<Rightarrow> string \<Rightarrow> nat option \<Rightarrow> string \<Rightarrow> bool \<Rightarrow> nat
    \<Rightarrow> heap \<times> 'w io \<Rightarrow> (error + json list) option \<times> heap \<times> 'w io" where
  "paginate tr endpoint params_ref key progress fuel hs =
     (let h = fst hs;
          copy = (case params_ref of None \<Rightarrow> [] | Some a \<Rightarrow> if h ! a \<noteq> [] then h ! a else []);
          p = length h;
          h1 = h @ [copy];
          h2 = h1[p := dict_set (h1 ! p) ''startAt'' (JInt 0)];
          h3 = h2[p := dict_set (h2 ! p) ''maxResults'' (JInt 100)]
      in paginate_loop tr endpoint p key progress fuel 0 [] JNull (h3, snd hs))"

text \<open>
  A simulated source that holds the records \<open>recs\<close>, declares \<open>declared\<close> as the total, and
  answers a request with the records from \<^verbatim>\<open>startAt\<close>, at most \<^verbatim>\<open>maxResults\<close> of them. Its
  state is the list of the parameters of the requests it has served.
\<close>

definition nat_param :: "params option \<Rightarrow> string \<Rightarrow> nat" where
  "nat_param ps k = (case dict_get (case ps of None \<Rightarrow> [] | Some d \<Rightarrow> d) k JNull of JInt i \<Rightarrow> nat i | _ \<Rightarrow> 0)"

definition offset_source :: "json list \<Rightarrow> int \<Rightarrow> (params option list) transport" where
  "offset_source recs declared = (\<lambda>w endpoint ps.
     (Inr \<lparr>status_code = 200, retry_after = None, body_text = [],
           body_json = Some (JObj [(''values'',
                                    JArr (take (nat_param ps ''maxResults'') (drop (nat_param ps ''startAt'') recs))),
                                   (''total'', JInt declared)])\<rparr>,
      w @ [ps]))"



lemma dict_get_dict_set:
  "dict_get (dict_set d k v) k' x = (if k' = k then v else dict_get d k' x)"
  by (simp add: dict_get_def map_of_dict_set)

lemma paginate_loop_frame:
  "p < length h \<Longrightarrow>
   length (fst (snd (paginate_loop tr endpoint p key progress fuel page acc totl (h, st)))) = length h \<and>
   (\<forall>a. a \<noteq> p \<longrightarrow>
      fst (snd (paginate_loop tr endpoint p key progress fuel page acc totl (h, st))) ! a = h ! a)"
proof (induction fuel arbitrary: page acc totl h st)
  case 0
  then show ?case by simp
next
  case (Suc fuel)
  have upd: "p < length (h[p := d])" for d using Suc.prems by simp
  show ?case
    using Suc.IH [OF upd] by (simp split: prod.splits sum.splits)
qed

lemma paginate_frame:
  "take (length h) (fst (snd (paginate tr endpoint params_ref key progress fuel (h, st)))) = h"
proof -
  let ?copy = "case params_ref of None \<Rightarrow> [] | Some a \<Rightarrow> if h ! a \<noteq> [] then h ! a else []"
  let ?h1 = "h @ [?copy]"
  let ?h2 = "?h1[length h := dict_set (?h1 ! length h) ''startAt'' (JInt 0)]"
  let ?h3 = "?h2[length h := dict_set (?h2 ! length h) ''maxResults'' (JInt 100)]"
  let ?out = "fst (snd (paginate_loop tr endpoint (length h) key progress fuel 0 [] JNull (?h3, st)))"
  have out: "fst (snd (paginate tr endpoint params_ref key progress fuel (h, st))) = ?out"
    by (simp add: paginate_def Let_def)
  have len: "length h < length ?h3" by simp
  from paginate_loop_frame [OF len, of tr endpoint key progress fuel 0 "[]" JNull st]
  have l: "length ?out = length ?h3" and same: "\<forall>a. a \<noteq> length h \<longrightarrow> ?out ! a = ?h3 ! a"
    by blast+
  have "take (length h) ?out = h"
  proof (rule nth_equalityI)
    show "length (take (length h) ?out) = length h" using l by simp
  next
    fix i assume "i < length (take (length h) ?out)"
    then have i: "i < length h" by simp
    with same have "?out ! i = ?h3 ! i" by simp
    also from i have "\<dots> = h ! i" by (simp add: nth_append)
    finally show "take (length h) ?out ! i = h ! i" using i by simp
  qed
  with out show ?thesis by simp
qed

text \<open>
  C10. The heap the caller sees after \<^verbatim>\<open>_paginate\<close>, with any amount of fuel and so at any
  point of the loop, holds every dictionary it held before, unchanged: the dictionary the
  caller passed is the one it was, and the only change is one new dictionary at the end,
  the copy that receives \<^verbatim>\<open>startAt\<close> and \<^verbatim>\<open>maxResults\<close>.
\<close>

theorem paginate_keeps_params:
  assumes "params_ref = Some a" "a < length h"
  shows "fst (snd (paginate tr endpoint params_ref key progress fuel (h, st))) ! a = h ! a \<and>
         take (length h) (fst (snd (paginate tr endpoint params_ref key progress fuel (h, st)))) = h"
proof -
  have t: "take (length h) (fst (snd (paginate tr endpoint params_ref key progress fuel (h, st)))) = h"
    by (rule paginate_frame)
  have "take (length h) (fst (snd (paginate tr endpoint params_ref key progress fuel (h, st)))) ! a =
      fst (snd (paginate tr endpoint params_ref key progress fuel (h, st))) ! a"
    using assms(2) by simp
  with t show ?thesis by simp
qed


lemma api_attempts_ok:
  "tr w endpoint ps = (Inr r, w') \<Longrightarrow> status_code r = 200 \<Longrightarrow> body_json r = Some d \<Longrightarrow>
   api_attempts tr endpoint ps m (Suc left) attempt (w, lg) = (Inr d, (w', lg))"
  by (simp add: response_ok_def)

lemma api_get_source:
  "api_get (offset_source recs declared) endpoint (Some d) 5 (w, lg) =
     (Inr (JObj [(''values'', JArr (take (nat_param (Some d) ''maxResults'')
                                     (drop (nat_param (Some d) ''startAt'') recs))),
                 (''total'', JInt declared)]),
      (w @ [Some d], lg))"
proof -
  let ?data = "JObj [(''values'', JArr (take (nat_param (Some d) ''maxResults'')
                                     (drop (nat_param (Some d) ''startAt'') recs))),
                 (''total'', JInt declared)]"
  let ?r = "\<lparr>status_code = 200, retry_after = None, body_text = [], body_json = Some ?data\<rparr>"
  have src: "offset_source recs declared w endpoint (Some d) = (Inr ?r, w @ [Some d])"
    by (simp add: offset_source_def)
  from api_attempts_ok [of "offset_source recs declared" w endpoint "Some d" ?r "w @ [Some d]"
      ?data 5 4 0 lg] src
  show ?thesis by (simp add: api_get_def)
qed

lemma page_step_source:
  assumes "t = JNull \<or> t = JInt declared"
  shows "page_step ''values'' progress page acc t
           (JObj [(''values'', JArr items), (''total'', JInt declared)]) =
     ((if t = JNull \<and> progress then [TotalToFetch (JInt declared)] else []) @
      (if progress then [PageFetched page (length items) (length (acc @ items)) (JInt declared)] else []) @
      (if progress \<and> declared \<le> int (length (acc @ items)) then [DoneAll (JInt declared)]
       else if progress \<and> items = [] then [WarnEmptyPage (length (acc @ items)) (JInt declared)]
       else []),
      Inr (acc @ items, JInt declared, \<not> declared \<le> int (length (acc @ items)) \<and> items \<noteq> []))"
  using assms
  by (auto simp: page_step_def py_get_def dict_get_def py_iter_def py_len_def ge_total_def Let_def
      split: bool.splits)

definition shown_for :: "bool \<Rightarrow> json \<Rightarrow> nat \<Rightarrow> nat \<Rightarrow> nat \<Rightarrow> int \<Rightarrow> event list" where
  "shown_for progress t page n m declared =
     (if t = JNull \<and> progress then [TotalToFetch (JInt declared)] else []) @
     (if progress then [PageFetched page n m (JInt declared)] else []) @
     (if progress \<and> declared \<le> int m then [DoneAll (JInt declared)]
      else if progress \<and> n = 0 then [WarnEmptyPage m (JInt declared)]
      else [])"

lemma loop_step:
  assumes "dict_get (h ! p) ''startAt'' JNull = JInt (int k)"
      and "dict_get (h ! p) ''maxResults'' JNull = JInt 100"
      and "t = JNull \<or> t = JInt declared"
      and "items = take 100 (drop k recs)"
  shows "paginate_loop (offset_source recs declared) endpoint p ''values'' progress (Suc fuel) page acc t
           (h, (w, lg)) =
     (if \<not> declared \<le> int (length (acc @ items)) \<and> items \<noteq> []
      then paginate_loop (offset_source recs declared) endpoint p ''values'' progress fuel (page + 1)
             (acc @ items) (JInt declared)
             (h[p := dict_set (h ! p) ''startAt'' (JInt (int (length (acc @ items))))],
              (w @ [Some (h ! p)],
               lg @ shown_for progress t (page + 1) (length items) (length (acc @ items)) declared))
      else (Some (Inr (acc @ items)), h,
            (w @ [Some (h ! p)],
             lg @ shown_for progress t (page + 1) (length items) (length (acc @ items)) declared)))"
proof -
  have np: "nat_param (Some (h ! p)) ''startAt'' = k" "nat_param (Some (h ! p)) ''maxResults'' = 100"
    using assms(1,2) by (simp_all add: nat_param_def)
  have api: "api_get (offset_source recs declared) endpoint (Some (h ! p)) 5 (w, lg) =
     (Inr (JObj [(''values'', JArr items), (''total'', JInt declared)]), (w @ [Some (h ! p)], lg))"
    using api_get_source [of recs declared endpoint "h ! p" w lg] np assms(4) by simp
  have ps: "page_step ''values'' progress (page + 1) acc t
           (JObj [(''values'', JArr items), (''total'', JInt declared)]) =
     (shown_for progress t (page + 1) (length items) (length (acc @ items)) declared,
      Inr (acc @ items, JInt declared, \<not> declared \<le> int (length (acc @ items)) \<and> items \<noteq> []))"
    using page_step_source [OF assms(3), of progress "page + 1" acc items]
    by (simp add: shown_for_def)
  show ?thesis
    by (simp only: paginate_loop.simps api ps prod.case sum.case emit_def fst_conv snd_conv)
qed


definition first_params :: "params \<Rightarrow> params" where
  "first_params base = dict_set (dict_set base ''startAt'' (JInt 0)) ''maxResults'' (JInt 100)"

definition at_offset :: "params \<Rightarrow> int \<Rightarrow> params" where
  "at_offset d k = dict_set d ''startAt'' (JInt k)"

definition base_of :: "heap \<Rightarrow> nat option \<Rightarrow> params" where
  "base_of h params_ref = (case params_ref of None \<Rightarrow> [] | Some a \<Rightarrow> h ! a)"

lemma paginate_start:
  "paginate tr endpoint params_ref key progress fuel (h, st) =
     paginate_loop tr endpoint (length h) key progress fuel 0 [] JNull
       (h @ [first_params (base_of h params_ref)], st)"
proof -
  have "(case params_ref of None \<Rightarrow> [] | Some a \<Rightarrow> if h ! a \<noteq> [] then h ! a else []) =
      base_of h params_ref"
    by (simp add: base_of_def split: option.splits)
  then show ?thesis
    by (simp add: paginate_def Let_def first_params_def)
qed

lemma params_read:
  "dict_get (first_params base) ''startAt'' JNull = JInt 0"
  "dict_get (first_params base) ''maxResults'' JNull = JInt 100"
  "dict_get (at_offset d k) ''startAt'' JNull = JInt k"
  "dict_get (at_offset d k) ''maxResults'' JNull = dict_get d ''maxResults'' JNull"
  by (simp_all add: first_params_def at_offset_def dict_get_dict_set)

lemma pages_250:
  assumes "length recs = 250"
  shows "length (take 100 recs) = 100" "length (take 100 (drop 100 recs)) = 100"
    "length (take 100 (drop 200 recs)) = 50"
    "take 100 recs @ take 100 (drop 100 recs) @ take 100 (drop 200 recs) = recs"
proof -
  show "length (take 100 recs) = 100" "length (take 100 (drop 100 recs)) = 100"
    "length (take 100 (drop 200 recs)) = 50"
    using assms by simp_all
  have a: "take 100 (drop 200 recs) = drop 100 (drop 100 recs)"
    using assms by simp
  have "take 100 (drop 100 recs) @ drop 100 (drop 100 recs) = drop 100 recs"
    by (rule append_take_drop_id)
  then have "take 100 recs @ take 100 (drop 100 recs) @ take 100 (drop 200 recs) =
      take 100 recs @ drop 100 recs"
    by (simp only: a)
  then show "take 100 recs @ take 100 (drop 100 recs) @ take 100 (drop 200 recs) = recs"
    by (simp only: append_take_drop_id)
qed

lemma pages_150:
  assumes "length recs = 150"
  shows "length (take 100 recs) = 100" "length (take 100 (drop 100 recs)) = 50"
    "take 100 (drop 150 recs) = []"
    "take 100 recs @ take 100 (drop 100 recs) = recs"
proof -
  show "length (take 100 recs) = 100" "length (take 100 (drop 100 recs)) = 50"
    "take 100 (drop 150 recs) = []"
    using assms by simp_all
  have "take 100 (drop 100 recs) = drop 100 recs"
    using assms by simp
  then show "take 100 recs @ take 100 (drop 100 recs) = recs"
    by (simp only: append_take_drop_id)
qed

lemma loop_next:
  assumes "dict_get d ''startAt'' JNull = JInt (int k)"
      and "dict_get d ''maxResults'' JNull = JInt 100"
      and "t = JNull \<or> t = JInt declared"
      and "items = take 100 (drop k recs)"
      and "length items = n" and "n \<noteq> 0"
      and "length acc + n = m" and "int m < declared"
  shows "paginate_loop (offset_source recs declared) endpoint (length h) ''values'' progress (Suc fuel)
           page acc t (h @ [d], (w, lg)) =
         paginate_loop (offset_source recs declared) endpoint (length h) ''values'' progress fuel
           (Suc page) (acc @ items) (JInt declared)
           (h @ [at_offset d (int m)], (w @ [Some d], lg @ shown_for progress t (Suc page) n m declared))"
proof -
  have a: "dict_get ((h @ [d]) ! length h) ''startAt'' JNull = JInt (int k)"
    and b: "dict_get ((h @ [d]) ! length h) ''maxResults'' JNull = JInt 100"
    using assms(1,2) by simp_all
  have len: "length (acc @ items) = m" using assms(5,7) by simp
  have ne: "items \<noteq> []" using assms(5,6) by auto
  have go: "\<not> declared \<le> int (length (acc @ items)) \<and> items \<noteq> []"
    using len ne assms(8) by simp
  have upd: "(h @ [d])[length h := dict_set ((h @ [d]) ! length h) ''startAt'' (JInt (int m))] =
      h @ [at_offset d (int m)]"
    by (simp add: at_offset_def)
  show ?thesis
    unfolding loop_step [OF a b assms(3,4), of endpoint progress fuel page acc w lg]
    using go len upd assms(5) by simp
qed

lemma loop_last:
  assumes "dict_get d ''startAt'' JNull = JInt (int k)"
      and "dict_get d ''maxResults'' JNull = JInt 100"
      and "t = JNull \<or> t = JInt declared"
      and "items = take 100 (drop k recs)"
      and "length items = n"
      and "length acc + n = m" and "declared \<le> int m \<or> n = 0"
  shows "paginate_loop (offset_source recs declared) endpoint (length h) ''values'' progress (Suc fuel)
           page acc t (h @ [d], (w, lg)) =
         (Some (Inr (acc @ items)), h @ [d],
          (w @ [Some d], lg @ shown_for progress t (Suc page) n m declared))"
proof -
  have a: "dict_get ((h @ [d]) ! length h) ''startAt'' JNull = JInt (int k)"
    and b: "dict_get ((h @ [d]) ! length h) ''maxResults'' JNull = JInt 100"
    using assms(1,2) by simp_all
  have len: "length (acc @ items) = m" using assms(5,6) by simp
  have stop: "(\<not> declared \<le> int m \<and> items \<noteq> []) = False"
    using assms(5,7) by auto
  have pg: "page + 1 = Suc page" by simp
  show ?thesis
    unfolding loop_step [OF a b assms(3,4), of endpoint progress fuel page acc w lg] len assms(5) pg stop
    by simp
qed

definition shown_250 :: "event list" where
  "shown_250 =
     [TotalToFetch (JInt 250), PageFetched 1 100 100 (JInt 250), PageFetched 2 100 200 (JInt 250),
      PageFetched 3 50 250 (JInt 250), DoneAll (JInt 250)]"

definition shown_150 :: "event list" where
  "shown_150 =
     [TotalToFetch (JInt 250), PageFetched 1 100 100 (JInt 250), PageFetched 2 50 150 (JInt 250),
      PageFetched 3 0 150 (JInt 250), WarnEmptyPage 150 (JInt 250)]"

lemma run_250:
  assumes "length recs = 250"
  shows "paginate (offset_source recs 250) endpoint params_ref ''values'' progress (Suc (Suc (Suc fuel)))
           (h, (w, lg)) =
     (Some (Inr recs),
      h @ [at_offset (at_offset (first_params (base_of h params_ref)) 100) 200],
      (w @ [Some (first_params (base_of h params_ref)),
            Some (at_offset (first_params (base_of h params_ref)) 100),
            Some (at_offset (at_offset (first_params (base_of h params_ref)) 100) 200)],
       lg @ (if progress then shown_250 else [])))"
proof -
  let ?S = "offset_source recs 250"
  let ?d0 = "first_params (base_of h params_ref)"
  let ?d1 = "at_offset ?d0 100"
  let ?d2 = "at_offset ?d1 200"
  let ?i1 = "take 100 recs"
  let ?i2 = "take 100 (drop 100 recs)"
  let ?i3 = "take 100 (drop 200 recs)"
  note pg = pages_250 [OF assms]
  have s1: "paginate_loop ?S endpoint (length h) ''values'' progress (Suc (Suc (Suc fuel))) 0 [] JNull
        (h @ [?d0], (w, lg)) =
      paginate_loop ?S endpoint (length h) ''values'' progress (Suc (Suc fuel)) (Suc 0) ([] @ ?i1) (JInt 250)
        (h @ [at_offset ?d0 (int 100)], (w @ [Some ?d0], lg @ shown_for progress JNull (Suc 0) 100 100 250))"
    by (rule loop_next [where k = 0]) (simp_all add: params_read pg assms)
  have s2: "paginate_loop ?S endpoint (length h) ''values'' progress (Suc (Suc fuel)) (Suc 0) ?i1 (JInt 250)
        (h @ [?d1], (w', lg')) =
      paginate_loop ?S endpoint (length h) ''values'' progress (Suc fuel) (Suc (Suc 0)) (?i1 @ ?i2) (JInt 250)
        (h @ [at_offset ?d1 (int 200)],
         (w' @ [Some ?d1], lg' @ shown_for progress (JInt 250) (Suc (Suc 0)) 100 200 250))" for w' lg'
    by (rule loop_next [where k = 100]) (simp_all add: params_read pg assms)
  have s3: "paginate_loop ?S endpoint (length h) ''values'' progress (Suc fuel) (Suc (Suc 0)) (?i1 @ ?i2) (JInt 250)
        (h @ [?d2], (w', lg')) =
      (Some (Inr ((?i1 @ ?i2) @ ?i3)), h @ [?d2],
       (w' @ [Some ?d2], lg' @ shown_for progress (JInt 250) (Suc (Suc (Suc 0))) 50 250 250))" for w' lg'
    by (rule loop_last [where k = 200]) (simp_all add: params_read pg assms)
  have sh: "shown_for progress JNull (Suc 0) 100 100 250 @ shown_for progress (JInt 250) (Suc (Suc 0)) 100 200 250 @
      shown_for progress (JInt 250) (Suc (Suc (Suc 0))) 50 250 250 = (if progress then shown_250 else [])"
    by (simp add: shown_for_def shown_250_def eval_nat_numeral)
  have all: "(?i1 @ ?i2) @ ?i3 = recs" using pg(4) by simp
  have "paginate ?S endpoint params_ref ''values'' progress (Suc (Suc (Suc fuel))) (h, (w, lg)) =
      (Some (Inr ((?i1 @ ?i2) @ ?i3)), h @ [?d2],
       (w @ [Some ?d0] @ [Some ?d1] @ [Some ?d2],
        lg @ shown_for progress JNull (Suc 0) 100 100 250 @ shown_for progress (JInt 250) (Suc (Suc 0)) 100 200 250 @
          shown_for progress (JInt 250) (Suc (Suc (Suc 0))) 50 250 250))"
    using s1 s2 s3 by (simp add: paginate_start)
  then show ?thesis
    by (simp only: all sh append_Cons append_Nil)
qed

lemma run_150:
  assumes "length recs = 150"
  shows "paginate (offset_source recs 250) endpoint params_ref ''values'' progress (Suc (Suc (Suc fuel)))
           (h, (w, lg)) =
     (Some (Inr recs),
      h @ [at_offset (at_offset (first_params (base_of h params_ref)) 100) 150],
      (w @ [Some (first_params (base_of h params_ref)),
            Some (at_offset (first_params (base_of h params_ref)) 100),
            Some (at_offset (at_offset (first_params (base_of h params_ref)) 100) 150)],
       lg @ (if progress then shown_150 else [])))"
proof -
  let ?S = "offset_source recs 250"
  let ?d0 = "first_params (base_of h params_ref)"
  let ?d1 = "at_offset ?d0 100"
  let ?d2 = "at_offset ?d1 150"
  let ?i1 = "take 100 recs"
  let ?i2 = "take 100 (drop 100 recs)"
  let ?i3 = "take 100 (drop 150 recs)"
  note pg = pages_150 [OF assms]
  have s1: "paginate_loop ?S endpoint (length h) ''values'' progress (Suc (Suc (Suc fuel))) 0 [] JNull
        (h @ [?d0], (w, lg)) =
      paginate_loop ?S endpoint (length h) ''values'' progress (Suc (Suc fuel)) (Suc 0) ([] @ ?i1) (JInt 250)
        (h @ [at_offset ?d0 (int 100)], (w @ [Some ?d0], lg @ shown_for progress JNull (Suc 0) 100 100 250))"
    by (rule loop_next [where k = 0]) (simp_all add: params_read pg assms)
  have s2: "paginate_loop ?S endpoint (length h) ''values'' progress (Suc (Suc fuel)) (Suc 0) ?i1 (JInt 250)
        (h @ [?d1], (w', lg')) =
      paginate_loop ?S endpoint (length h) ''values'' progress (Suc fuel) (Suc (Suc 0)) (?i1 @ ?i2) (JInt 250)
        (h @ [at_offset ?d1 (int 150)],
         (w' @ [Some ?d1], lg' @ shown_for progress (JInt 250) (Suc (Suc 0)) 50 150 250))" for w' lg'
    by (rule loop_next [where k = 100]) (simp_all add: params_read pg assms)
  have s3: "paginate_loop ?S endpoint (length h) ''values'' progress (Suc fuel) (Suc (Suc 0)) (?i1 @ ?i2) (JInt 250)
        (h @ [?d2], (w', lg')) =
      (Some (Inr ((?i1 @ ?i2) @ ?i3)), h @ [?d2],
       (w' @ [Some ?d2], lg' @ shown_for progress (JInt 250) (Suc (Suc (Suc 0))) 0 150 250))" for w' lg'
    by (rule loop_last [where k = 150]) (simp_all add: params_read pg assms)
  have sh: "shown_for progress JNull (Suc 0) 100 100 250 @ shown_for progress (JInt 250) (Suc (Suc 0)) 50 150 250 @
      shown_for progress (JInt 250) (Suc (Suc (Suc 0))) 0 150 250 = (if progress then shown_150 else [])"
    by (simp add: shown_for_def shown_150_def eval_nat_numeral)
  have all: "(?i1 @ ?i2) @ ?i3 = recs" using pg(3,4) by simp
  have "paginate ?S endpoint params_ref ''values'' progress (Suc (Suc (Suc fuel))) (h, (w, lg)) =
      (Some (Inr ((?i1 @ ?i2) @ ?i3)), h @ [?d2],
       (w @ [Some ?d0] @ [Some ?d1] @ [Some ?d2],
        lg @ shown_for progress JNull (Suc 0) 100 100 250 @ shown_for progress (JInt 250) (Suc (Suc 0)) 50 150 250 @
          shown_for progress (JInt 250) (Suc (Suc (Suc 0))) 0 150 250))"
    using s1 s2 s3 by (simp add: paginate_start)
  then show ?thesis
    by (simp only: all sh append_Cons append_Nil)
qed


theorem paginate_keeps_params_witness:
  "Some 0 = Some (0::nat) \<and> 0 < length [[(''jql'', JStr ''project = P'')]] \<and>
   fst (snd (paginate (offset_source (replicate 150 JNull) 250) ''search'' (Some 0) ''values'' True 3
     ([[(''jql'', JStr ''project = P'')]], ([], [])))) ! 0 = [(''jql'', JStr ''project = P'')] \<and>
   fst (snd (paginate (offset_source (replicate 150 JNull) 250) ''search'' (Some 0) ''values'' True 3
     ([[(''jql'', JStr ''project = P'')]], ([], [])))) =
     [[(''jql'', JStr ''project = P'')],
      [(''jql'', JStr ''project = P''), (''startAt'', JInt 150), (''maxResults'', JInt 100)]]"
proof -
  have run: "fst (snd (paginate (offset_source (replicate 150 JNull) 250) ''search'' (Some 0) ''values'' True
      (Suc (Suc (Suc 0))) ([[(''jql'', JStr ''project = P'')]], ([], [])))) =
     [[(''jql'', JStr ''project = P'')],
      [(''jql'', JStr ''project = P''), (''startAt'', JInt 150), (''maxResults'', JInt 100)]]"
    by (simp add: run_150 first_params_def at_offset_def base_of_def)
  have three: "(3::nat) = Suc (Suc (Suc 0))" by simp
  from paginate_keeps_params [of "Some 0" 0 "[[(''jql'', JStr ''project = P'')]]"
      "offset_source (replicate 150 JNull) 250" "''search''" "''values''" True 3 "([], [])"] run
  show ?thesis by (simp only: three) simp
qed

text \<open>
  C3, as amended. Against a source that declares a total of 250 and serves pages of 100,
  \<^verbatim>\<open>_paginate\<close> with fuel for three passes makes exactly three requests, at offsets 0, 100
  and 200, and returns the 250 records in the order of the requests. Against a source that
  holds only 150 of the declared 250, it makes three requests, at offsets 0, 100 and 150,
  stops at the empty third page, and returns the 150 records, not an exception. The lines
  it prints, the warning for the empty page among them, are printed when \<^verbatim>\<open>progress\<close> is
  true and not otherwise.
\<close>

theorem offset_pagination:
  assumes "3 \<le> fuel"
  shows
    "(length recs = 250 \<longrightarrow>
        paginate (offset_source recs 250) endpoint params_ref ''values'' progress fuel (h, (w, lg)) =
          (Some (Inr recs),
           h @ [at_offset (at_offset (first_params (base_of h params_ref)) 100) 200],
           (w @ [Some (first_params (base_of h params_ref)),
                 Some (at_offset (first_params (base_of h params_ref)) 100),
                 Some (at_offset (at_offset (first_params (base_of h params_ref)) 100) 200)],
            lg @ (if progress then shown_250 else [])))) \<and>
     (length recs = 150 \<longrightarrow>
        paginate (offset_source recs 250) endpoint params_ref ''values'' progress fuel (h, (w, lg)) =
          (Some (Inr recs),
           h @ [at_offset (at_offset (first_params (base_of h params_ref)) 100) 150],
           (w @ [Some (first_params (base_of h params_ref)),
                 Some (at_offset (first_params (base_of h params_ref)) 100),
                 Some (at_offset (at_offset (first_params (base_of h params_ref)) 100) 150)],
            lg @ (if progress then shown_150 else []))))"
proof -
  from assms obtain f where "fuel = Suc (Suc (Suc f))"
    by (metis add_Suc le_Suc_ex numeral_3_eq_3 plus_nat.add_0)
  then show ?thesis
    using run_250 [of recs endpoint params_ref progress f h w lg]
      run_150 [of recs endpoint params_ref progress f h w lg]
    by simp
qed

theorem offset_pagination_witness:
  "(3::nat) \<le> 3 \<and> length (replicate 250 JNull) = 250 \<and> length (replicate 150 JNull) = 150 \<and>
   paginate (offset_source (replicate 250 JNull) 250) ''search'' None ''values'' True 3 ([], ([], [])) =
     (Some (Inr (replicate 250 JNull)),
      [[(''startAt'', JInt 200), (''maxResults'', JInt 100)]],
      ([Some [(''startAt'', JInt 0), (''maxResults'', JInt 100)],
        Some [(''startAt'', JInt 100), (''maxResults'', JInt 100)],
        Some [(''startAt'', JInt 200), (''maxResults'', JInt 100)]],
       shown_250)) \<and>
   paginate (offset_source (replicate 150 JNull) 250) ''search'' None ''values'' True 3 ([], ([], [])) =
     (Some (Inr (replicate 150 JNull)),
      [[(''startAt'', JInt 150), (''maxResults'', JInt 100)]],
      ([Some [(''startAt'', JInt 0), (''maxResults'', JInt 100)],
        Some [(''startAt'', JInt 100), (''maxResults'', JInt 100)],
        Some [(''startAt'', JInt 150), (''maxResults'', JInt 100)]],
       shown_150))"
proof -
  have d: "first_params (base_of [] None) = [(''startAt'', JInt 0), (''maxResults'', JInt 100)]"
    "at_offset [(''startAt'', JInt 0), (''maxResults'', JInt 100)] k =
       [(''startAt'', JInt k), (''maxResults'', JInt 100)]"
    "at_offset [(''startAt'', JInt 100), (''maxResults'', JInt 100)] k =
       [(''startAt'', JInt k), (''maxResults'', JInt 100)]" for k
    by (simp_all add: first_params_def base_of_def at_offset_def)
  have l: "length (replicate 250 JNull) = 250" "length (replicate 150 JNull) = 150" by simp_all
  have f: "(3::nat) \<le> 3" by simp
  from offset_pagination [OF f, of "replicate 250 JNull" "''search''" None True "[]" "[]" "[]"]
    offset_pagination [OF f, of "replicate 150 JNull" "''search''" None True "[]" "[]" "[]"] l
  show ?thesis by (simp add: d)
qed

text \<open>
  C3 as stated fails where it promises a warning: with \<^verbatim>\<open>progress\<close> false, the run that ends
  at the empty page after 150 of the declared 250 records prints nothing.
\<close>

theorem quiet_run_has_no_warning:
  "paginate (offset_source (replicate 150 JNull) 250) ''search'' None ''values'' False 3 ([], ([], [])) =
     (Some (Inr (replicate 150 JNull)),
      [[(''startAt'', JInt 150), (''maxResults'', JInt 100)]],
      ([Some [(''startAt'', JInt 0), (''maxResults'', JInt 100)],
        Some [(''startAt'', JInt 100), (''maxResults'', JInt 100)],
        Some [(''startAt'', JInt 150), (''maxResults'', JInt 100)]],
       []))"
proof -
  have three: "(3::nat) = Suc (Suc (Suc 0))" by simp
  have l: "length (replicate 150 JNull) = 150" by simp
  show ?thesis
    unfolding three run_150 [OF l]
    by (simp add: first_params_def base_of_def at_offset_def)
qed


section \<open>The store: \<^verbatim>\<open>JiraDatabase\<close>\<close>

text \<open>
  A row is the list of its columns with their values. A value is SQL \<^verbatim>\<open>NULL\<close>, an integer,
  a text, or the text that \<^verbatim>\<open>json.dumps\<close> gives for a document, kept as the document:
  serialization is one-to-one on decoded JSON, and no statement of the program looks inside
  such a column.

  The store holds the five tables and the full-text index. A ticket row carries its
  \<^verbatim>\<open>rowid\<close>, since the index is keyed by it. The index \<^verbatim>\<open>tickets_fts\<close> is an external-content
  index: it holds, for a \<^verbatim>\<open>rowid\<close>, the texts that were indexed under it, and reads column
  values back from \<^verbatim>\<open>tickets\<close>. The three tables with \<^verbatim>\<open>AUTOINCREMENT\<close> keep the last
  id they gave out. The foreign keys are declared and not enforced: the program never turns
  \<^verbatim>\<open>PRAGMA foreign_keys\<close> on.
\<close>

datatype sqlval = Null | Integer int | Text string | Doc json

type_synonym row = "(string \<times> sqlval) list"

record store =
  tickets :: "(nat \<times> row) list"
  tickets_fts :: "(nat \<times> row) list"
  comments :: "row list"
  changelog :: "row list"
  issue_links :: "row list"
  subtasks :: "row list"
  changelog_seq :: nat
  issue_links_seq :: nat
  subtasks_seq :: nat

definition empty_store :: store where
  "empty_store = \<lparr>tickets = [], tickets_fts = [], comments = [], changelog = [], issue_links = [],
     subtasks = [], changelog_seq = 0, issue_links_seq = 0, subtasks_seq = 0\<rparr>"

definition col :: "row \<Rightarrow> string \<Rightarrow> sqlval" where
  "col r c = (case map_of r c of None \<Rightarrow> Null | Some v \<Rightarrow> v)"

text \<open>\<^verbatim>\<open>a = b\<close> in a \<^verbatim>\<open>WHERE\<close> clause and in a uniqueness check: never true of a \<^verbatim>\<open>NULL\<close>.\<close>

definition sql_eq :: "sqlval \<Rightarrow> sqlval \<Rightarrow> bool" where
  "sql_eq a b = (a \<noteq> Null \<and> b \<noteq> Null \<and> a = b)"

text \<open>
  A parameter of a statement is a decoded JSON value, the string \<^verbatim>\<open>json.dumps\<close> made of
  one, or an integer written in the program. Binding a JSON value to a column of type
  \<^verbatim>\<open>TEXT\<close>: \<^verbatim>\<open>None\<close> is \<^verbatim>\<open>NULL\<close>, a string is itself, an integer (and a boolean, which is
  an integer) becomes its decimal text, a list or a dictionary cannot be bound.
\<close>

datatype pyparam = PJson json | PDumps json | PInt int

definition bind_text :: "json \<Rightarrow> error + sqlval" where
  "bind_text v =
     (case v of
        JNull \<Rightarrow> Inr Null
      | JBool b \<Rightarrow> Inr (Text (if b then ''1'' else ''0''))
      | JInt i \<Rightarrow> (if - (2 ^ 63) \<le> i \<and> i < 2 ^ 63 then Inr (Text (str_int i)) else Inl OverflowError)
      | JStr s \<Rightarrow> Inr (Text s)
      | _ \<Rightarrow> Inl BindError)"

definition bind_param :: "pyparam \<Rightarrow> error + sqlval" where
  "bind_param p = (case p of PJson v \<Rightarrow> bind_text v | PDumps v \<Rightarrow> Inr (Doc v) | PInt i \<Rightarrow> Inr (Integer i))"

text \<open>
  The tuple of parameters is evaluated first, left to right, and then bound, left to
  right.
\<close>

definition as_json :: "error + json \<Rightarrow> error + pyparam" where
  "as_json m = bnd m (\<lambda>v. Inr (PJson v))"

definition dumps :: "error + json \<Rightarrow> error + pyparam" where
  "dumps m = bnd m (\<lambda>v. Inr (PDumps v))"

definition make_row :: "string list \<Rightarrow> (error + pyparam) list \<Rightarrow> error + row" where
  "make_row columns exprs =
     bnd (map_err (\<lambda>m. m) exprs) (\<lambda>ps. bnd (map_err bind_param ps) (\<lambda>vals. Inr (zip columns vals)))"

definition get_user_field :: "json \<Rightarrow> string \<Rightarrow> error + json" where
  "get_user_field user_dict field = (if user_dict = JNull then Inr JNull else py_get user_dict field JNull)"

definition user_field :: "json \<Rightarrow> string \<Rightarrow> string \<Rightarrow> error + pyparam" where
  "user_field d who field = as_json (bnd (py_get d who JNull) (\<lambda>u. get_user_field u field))"

definition ticket_columns :: "string list" where
  "ticket_columns =
     [''key'', ''id'', ''summary'', ''description'', ''description_raw'',
      ''status'', ''status_category'', ''priority'', ''issue_type'', ''is_subtask'',
      ''project_key'', ''project_name'',
      ''creator_id'', ''creator_name'', ''creator_email'',
      ''reporter_id'', ''reporter_name'', ''reporter_email'',
      ''assignee_id'', ''assignee_name'', ''assignee_email'',
      ''created'', ''updated'', ''resolved'', ''resolution'',
      ''labels'', ''components'', ''fix_versions'', ''affects_versions'',
      ''parent_key'', ''parent_summary'', ''custom_fields'', ''raw_json'', ''exported_at'']"

definition ticket_row :: "json \<Rightarrow> error + row" where
  "ticket_row ticket = make_row ticket_columns
     [as_json (py_get ticket ''key'' JNull),
      as_json (py_get ticket ''id'' JNull),
      as_json (py_get ticket ''summary'' JNull),
      as_json (py_get ticket ''description'' JNull),
      dumps (py_get ticket ''descriptionRaw'' JNull),
      as_json (if_present ticket ''status'' (get2 ticket ''status'' ''name'')),
      as_json (if_present ticket ''status'' (get2 ticket ''status'' ''category'')),
      as_json (if_present ticket ''priority'' (get2 ticket ''priority'' ''name'')),
      as_json (if_present ticket ''issueType'' (get2 ticket ''issueType'' ''name'')),
      bnd (get2 ticket ''issueType'' ''subtask'') (\<lambda>v. Inr (PInt (if truthy v then 1 else 0))),
      as_json (if_present ticket ''project'' (get2 ticket ''project'' ''key'')),
      as_json (if_present ticket ''project'' (get2 ticket ''project'' ''name'')),
      user_field ticket ''creator'' ''accountId'',
      user_field ticket ''creator'' ''displayName'',
      user_field ticket ''creator'' ''emailAddress'',
      user_field ticket ''reporter'' ''accountId'',
      user_field ticket ''reporter'' ''displayName'',
      user_field ticket ''reporter'' ''emailAddress'',
      user_field ticket ''assignee'' ''accountId'',
      user_field ticket ''assignee'' ''displayName'',
      user_field ticket ''assignee'' ''emailAddress'',
      as_json (py_get ticket ''created'' JNull),
      as_json (py_get ticket ''updated'' JNull),
      as_json (py_get ticket ''resolved'' JNull),
      as_json (py_get ticket ''resolution'' JNull),
      dumps (py_get ticket ''labels'' (JArr [])),
      dumps (py_get ticket ''components'' (JArr [])),
      dumps (py_get ticket ''fixVersions'' (JArr [])),
      dumps (py_get ticket ''affectsVersions'' (JArr [])),
      as_json (if_present ticket ''parent'' (get2 ticket ''parent'' ''key'')),
      as_json (if_present ticket ''parent'' (get2 ticket ''parent'' ''summary'')),
      dumps (py_get ticket ''customFields'' (JObj [])),
      dumps (Inr ticket),
      as_json (py_get ticket ''_exportedAt'' JNull)]"

definition comment_row :: "json \<Rightarrow> json \<Rightarrow> error + row" where
  "comment_row ticket_key comment = make_row
     [''id'', ''ticket_key'', ''author_id'', ''author_name'', ''author_email'', ''body'', ''body_raw'',
      ''created'', ''updated'']
     [as_json (py_get comment ''id'' JNull),
      as_json (Inr ticket_key),
      user_field comment ''author'' ''accountId'',
      user_field comment ''author'' ''displayName'',
      user_field comment ''author'' ''emailAddress'',
      as_json (py_get comment ''body'' JNull),
      dumps (py_get comment ''bodyRaw'' JNull),
      as_json (py_get comment ''created'' JNull),
      as_json (py_get comment ''updated'' JNull)]"

definition change_row :: "json \<Rightarrow> json \<Rightarrow> error + row" where
  "change_row ticket_key change = make_row
     [''ticket_key'', ''field'', ''field_type'', ''from_value'', ''to_value'', ''author_id'',
      ''author_name'', ''author_email'', ''created'']
     [as_json (Inr ticket_key),
      as_json (py_get change ''field'' JNull),
      as_json (py_get change ''fieldtype'' JNull),
      as_json (py_get change ''from'' JNull),
      as_json (py_get change ''to'' JNull),
      user_field change ''author'' ''accountId'',
      user_field change ''author'' ''displayName'',
      user_field change ''author'' ''emailAddress'',
      as_json (py_get change ''created'' JNull)]"

definition link_row :: "json \<Rightarrow> json \<Rightarrow> error + row" where
  "link_row ticket_key link = make_row
     [''ticket_key'', ''link_type'', ''inward_key'', ''outward_key'']
     [as_json (Inr ticket_key),
      as_json (py_get link ''type'' JNull),
      as_json (py_get link ''inward'' JNull),
      as_json (py_get link ''outward'' JNull)]"

definition subtask_row :: "json \<Rightarrow> json \<Rightarrow> error + row" where
  "subtask_row ticket_key subtask = make_row
     [''ticket_key'', ''subtask_key'', ''subtask_summary'']
     [as_json (Inr ticket_key),
      as_json (py_get subtask ''key'' JNull),
      as_json (py_get subtask ''summary'' JNull)]"

text \<open>
  \<^verbatim>\<open>INSERT OR REPLACE INTO tickets\<close>. The new \<^verbatim>\<open>rowid\<close> is one more than the largest in the
  table, taken before the conflict is resolved. A row with the same \<^verbatim>\<open>key\<close>, the primary
  key, is deleted; this deletion does not fire the trigger \<^verbatim>\<open>tickets_ad\<close>, which SQLite
  fires for a replaced row only under \<^verbatim>\<open>PRAGMA recursive_triggers\<close>, and the program leaves
  that pragma off. The insertion fires \<^verbatim>\<open>tickets_ai\<close>, which adds the new row to the index.
  No statement of the program updates or deletes a ticket otherwise, so \<^verbatim>\<open>tickets_ad\<close> and
  \<^verbatim>\<open>tickets_au\<close> never run.
\<close>

definition next_rowid :: "(nat \<times> row) list \<Rightarrow> nat" where
  "next_rowid ts = fold max (map fst ts) 0 + 1"

definition fts_doc :: "row \<Rightarrow> row" where
  "fts_doc r = [(''key'', col r ''key''), (''summary'', col r ''summary''),
                (''description'', col r ''description'')]"

definition tickets_ai :: "nat \<Rightarrow> row \<Rightarrow> store \<Rightarrow> store" where
  "tickets_ai rowid new s = s\<lparr>tickets_fts := tickets_fts s @ [(rowid, fts_doc new)]\<rparr>"

definition insert_or_replace_ticket :: "row \<Rightarrow> store \<Rightarrow> store" where
  "insert_or_replace_ticket r s =
     (let rowid = next_rowid (tickets s);
          kept = filter (\<lambda>old. \<not> sql_eq (col (snd old) ''key'') (col r ''key'')) (tickets s)
      in tickets_ai rowid r (s\<lparr>tickets := kept @ [(rowid, r)]\<rparr>))"

text \<open>\<^verbatim>\<open>INSERT INTO tickets_fts(tickets_fts) VALUES('rebuild')\<close>: the index is made again from the table.\<close>

definition rebuild_fts :: "store \<Rightarrow> store" where
  "rebuild_fts s = s\<lparr>tickets_fts := map (\<lambda>t. (fst t, fts_doc (snd t))) (tickets s)\<rparr>"

definition delete_children :: "sqlval \<Rightarrow> store \<Rightarrow> store" where
  "delete_children k s =
     s\<lparr>comments := filter (\<lambda>r. \<not> sql_eq (col r ''ticket_key'') k) (comments s),
       changelog := filter (\<lambda>r. \<not> sql_eq (col r ''ticket_key'') k) (changelog s),
       issue_links := filter (\<lambda>r. \<not> sql_eq (col r ''ticket_key'') k) (issue_links s),
       subtasks := filter (\<lambda>r. \<not> sql_eq (col r ''ticket_key'') k) (subtasks s)\<rparr>"

text \<open>\<^verbatim>\<open>comments.id\<close> is the primary key of its table: a second row with the same id is refused.\<close>

definition add_comment :: "row \<Rightarrow> store \<Rightarrow> error + store" where
  "add_comment r s =
     (if list_ex (\<lambda>old. sql_eq (col old ''id'') (col r ''id'')) (comments s) then Inl IntegrityError
      else Inr (s\<lparr>comments := comments s @ [r]\<rparr>))"

definition add_change :: "row \<Rightarrow> store \<Rightarrow> store" where
  "add_change r s =
     s\<lparr>changelog := changelog s @ [(''id'', Integer (int (changelog_seq s + 1))) # r],
       changelog_seq := changelog_seq s + 1\<rparr>"

definition add_link :: "row \<Rightarrow> store \<Rightarrow> store" where
  "add_link r s =
     s\<lparr>issue_links := issue_links s @ [(''id'', Integer (int (issue_links_seq s + 1))) # r],
       issue_links_seq := issue_links_seq s + 1\<rparr>"

definition add_subtask :: "row \<Rightarrow> store \<Rightarrow> store" where
  "add_subtask r s =
     s\<lparr>subtasks := subtasks s @ [(''id'', Integer (int (subtasks_seq s + 1))) # r],
       subtasks_seq := subtasks_seq s + 1\<rparr>"

text \<open>The four loops \<^verbatim>\<open>for x in ticket.get(k, [])\<close>, each row made and inserted in turn.\<close>

fun insert_each :: "(json \<Rightarrow> error + row) \<Rightarrow> (row \<Rightarrow> store \<Rightarrow> error + store) \<Rightarrow> json list \<Rightarrow> store
    \<Rightarrow> error + store" where
  "insert_each mk add [] s = Inr s"
| "insert_each mk add (x # xs) s =
     bnd (mk x) (\<lambda>r. bnd (add r s) (\<lambda>s1. insert_each mk add xs s1))"

definition insert_all :: "json \<Rightarrow> string \<Rightarrow> (json \<Rightarrow> error + row) \<Rightarrow> (row \<Rightarrow> store \<Rightarrow> error + store)
    \<Rightarrow> store \<Rightarrow> error + store" where
  "insert_all ticket k mk add s =
     bnd (py_get ticket k (JArr [])) (\<lambda>xs. bnd (py_iter xs) (\<lambda>items. insert_each mk add items s))"

text \<open>
  \<^verbatim>\<open>insert_ticket\<close>. The result is the store after \<^verbatim>\<open>commit\<close>; when an exception is raised,
  nothing has been committed.
\<close>

definition insert_ticket :: "store \<Rightarrow> json \<Rightarrow> error + store" where
  "insert_ticket s ticket =
     bnd (ticket_row ticket) (\<lambda>r.
     bnd (py_get ticket ''key'' JNull) (\<lambda>ticket_key.
     bnd (insert_all ticket ''comments'' (comment_row ticket_key) add_comment
            (delete_children (col r ''key'') (insert_or_replace_ticket r s))) (\<lambda>s1.
     bnd (insert_all ticket ''changelog'' (change_row ticket_key) (\<lambda>r s. Inr (add_change r s)) s1) (\<lambda>s2.
     bnd (insert_all ticket ''links'' (link_row ticket_key) (\<lambda>r s. Inr (add_link r s)) s2) (\<lambda>s3.
     insert_all ticket ''subtasks'' (subtask_row ticket_key) (\<lambda>r s. Inr (add_subtask r s)) s3)))))"

definition get_stats :: "store \<Rightarrow> (string \<times> nat) list" where
  "get_stats s =
     [(''tickets'', length (tickets s)),
      (''comments'', length (comments s)),
      (''changelog_entries'', length (changelog s)),
      (''projects'', card (set (filter (\<lambda>v. v \<noteq> Null) (map (\<lambda>t. col (snd t) ''project_key'') (tickets s)))))]"

text \<open>The rows of a table that belong to a key.\<close>

definition rows_for :: "string \<Rightarrow> row list \<Rightarrow> row list" where
  "rows_for k rs = filter (\<lambda>r. col r ''ticket_key'' = Text k) rs"

definition tickets_for :: "string \<Rightarrow> store \<Rightarrow> row list" where
  "tickets_for k s = filter (\<lambda>r. col r ''key'' = Text k) (map snd (tickets s))"

definition child_items :: "(string \<times> json) list \<Rightarrow> string \<Rightarrow> json list" where
  "child_items t k = (case py_iter (dict_get t k (JArr [])) of Inr xs \<Rightarrow> xs | Inl e \<Rightarrow> [])"

lemma map_err_nth:
  "map_err f xs = Inr ys \<Longrightarrow> length ys = length xs \<and> (\<forall>i < length xs. f (xs ! i) = Inr (ys ! i))"
proof (induction xs arbitrary: ys)
  case Nil
  then show ?case by simp
next
  case (Cons x xs)
  then obtain y ys' where y: "f x = Inr y" "map_err f xs = Inr ys'" "ys = y # ys'"
    by (auto simp: bnd_def split: sum.splits)
  with Cons.IH [of ys'] show ?case
    by (auto simp: nth_Cons split: nat.splits)
qed

lemma make_row_col:
  assumes "make_row columns exprs = Inr r" "length exprs = length columns" "distinct columns"
    "i < length columns" "exprs ! i = Inr p" "bind_param p = Inr v"
  shows "col r (columns ! i) = v"
proof -
  from assms(1) obtain ps vals where ps: "map_err (\<lambda>m. m) exprs = Inr ps"
    and vals: "map_err bind_param ps = Inr vals" and r: "r = zip columns vals"
    by (auto simp: make_row_def bnd_def split: sum.splits)
  from map_err_nth [OF ps] assms(2,4,5) have lp: "length ps = length columns" and "ps ! i = p"
    by auto
  with map_err_nth [OF vals] assms(4,6) have lv: "length vals = length columns" and "vals ! i = v"
    by auto
  with assms(3,4) r show ?thesis
    by (simp add: col_def map_of_zip_nth)
qed

lemma ticket_row_key:
  assumes "ticket_row (JObj t) = Inr r" "dict_get t ''key'' JNull = JStr k"
  shows "col r ''key'' = Text k"
  using make_row_col [OF assms(1) [unfolded ticket_row_def], of 0 "PJson (JStr k)" "Text k"] assms(2)
  by (simp add: ticket_columns_def as_json_def py_get_def bind_param_def bind_text_def)

lemma comment_row_key:
  assumes "comment_row (JStr k) x = Inr r"
  shows "col r ''ticket_key'' = Text k"
  using make_row_col [OF assms [unfolded comment_row_def], of 1 "PJson (JStr k)" "Text k"]
  by (simp add: as_json_def bind_param_def bind_text_def)

lemma change_row_key:
  assumes "change_row (JStr k) x = Inr r"
  shows "col r ''ticket_key'' = Text k"
  using make_row_col [OF assms [unfolded change_row_def], of 0 "PJson (JStr k)" "Text k"]
  by (simp add: as_json_def bind_param_def bind_text_def)

lemma link_row_key:
  assumes "link_row (JStr k) x = Inr r"
  shows "col r ''ticket_key'' = Text k"
  using make_row_col [OF assms [unfolded link_row_def], of 0 "PJson (JStr k)" "Text k"]
  by (simp add: as_json_def bind_param_def bind_text_def)

lemma subtask_row_key:
  assumes "subtask_row (JStr k) x = Inr r"
  shows "col r ''ticket_key'' = Text k"
  using make_row_col [OF assms [unfolded subtask_row_def], of 0 "PJson (JStr k)" "Text k"]
  by (simp add: as_json_def bind_param_def bind_text_def)


lemma insert_each_count:
  assumes mk: "\<And>x r. mk x = Inr r \<Longrightarrow> Q r"
      and add: "\<And>r s s1. Q r \<Longrightarrow> add r s = Inr s1 \<Longrightarrow> cnt s1 = Suc (cnt s)"
  shows "insert_each mk add xs s = Inr s' \<Longrightarrow> cnt s' = cnt s + length xs"
proof (induction xs arbitrary: s)
  case Nil
  then show ?case by simp
next
  case (Cons x xs)
  then obtain r s1 where r: "mk x = Inr r" and s1: "add r s = Inr s1"
    and rest: "insert_each mk add xs s1 = Inr s'"
    by (auto simp: bnd_def split: sum.splits)
  from add [OF mk [OF r] s1] Cons.IH [OF rest] show ?case by simp
qed

lemma insert_each_keep:
  assumes add: "\<And>r s s1. add r s = Inr s1 \<Longrightarrow> f s1 = f s"
  shows "insert_each mk add xs s = Inr s' \<Longrightarrow> f s' = f s"
proof (induction xs arbitrary: s)
  case Nil
  then show ?case by simp
next
  case (Cons x xs)
  then obtain r s1 where s1: "add r s = Inr s1" and rest: "insert_each mk add xs s1 = Inr s'"
    by (auto simp: bnd_def split: sum.splits)
  from add [OF s1] Cons.IH [OF rest] show ?case by simp
qed

lemma insert_all_items:
  "insert_all (JObj t) k mk add s = Inr s' \<Longrightarrow> insert_each mk add (child_items t k) s = Inr s'"
  by (auto simp: insert_all_def child_items_def py_get_def bnd_def split: sum.splits)

lemma col_id_cons: "col ((''id'', v) # r) ''ticket_key'' = col r ''ticket_key''"
  by (simp add: col_def)

lemma rows_for_append: "rows_for k (rs @ [r]) = rows_for k rs @ (if col r ''ticket_key'' = Text k then [r] else [])"
  by (simp add: rows_for_def)

lemma add_comment_eq:
  "add_comment r s = Inr s1 \<Longrightarrow> s1 = s\<lparr>comments := comments s @ [r]\<rparr>"
  by (auto simp: add_comment_def split: if_splits)

text \<open>What the statements before the loops leave: one ticket row for the key and no child row.\<close>

lemma replaced_ticket:
  assumes "col r ''key'' = Text k"
  shows "tickets_for k (delete_children (Text k) (insert_or_replace_ticket r s)) = [r]"
proof -
  have "filter (\<lambda>x. col x ''key'' = Text k)
      (map snd (filter (\<lambda>old. \<not> sql_eq (col (snd old) ''key'') (Text k)) (tickets s))) = []"
    by (auto simp: filter_empty_conv sql_eq_def)
  with assms show ?thesis
    by (simp add: tickets_for_def delete_children_def insert_or_replace_ticket_def tickets_ai_def Let_def)
qed

lemma deleted_children:
  "rows_for k (filter (\<lambda>r. \<not> sql_eq (col r ''ticket_key'') (Text k)) rs) = []"
  by (auto simp: rows_for_def filter_empty_conv sql_eq_def)

lemma upsert_counts:
  assumes key: "dict_get t ''key'' JNull = JStr k"
      and ins: "insert_ticket s (JObj t) = Inr s'"
  shows "length (tickets_for k s') = 1 \<and>
         length (rows_for k (comments s')) = length (child_items t ''comments'') \<and>
         length (rows_for k (changelog s')) = length (child_items t ''changelog'') \<and>
         length (rows_for k (issue_links s')) = length (child_items t ''links'') \<and>
         length (rows_for k (subtasks s')) = length (child_items t ''subtasks'')"
proof -
  let ?key = "JStr k"
  from ins key obtain r s1 s2 s3 where row: "ticket_row (JObj t) = Inr r"
    and c: "insert_all (JObj t) ''comments'' (comment_row ?key) add_comment
              (delete_children (col r ''key'') (insert_or_replace_ticket r s)) = Inr s1"
    and ch: "insert_all (JObj t) ''changelog'' (change_row ?key) (\<lambda>r s. Inr (add_change r s)) s1 = Inr s2"
    and l: "insert_all (JObj t) ''links'' (link_row ?key) (\<lambda>r s. Inr (add_link r s)) s2 = Inr s3"
    and st: "insert_all (JObj t) ''subtasks'' (subtask_row ?key) (\<lambda>r s. Inr (add_subtask r s)) s3 = Inr s'"
    by (auto simp: insert_ticket_def py_get_def bnd_def split: sum.splits)
  let ?s0 = "delete_children (Text k) (insert_or_replace_ticket r s)"
  have rk: "col r ''key'' = Text k" by (rule ticket_row_key [OF row key])
  note c' = insert_all_items [OF c [unfolded rk]]
  note ch' = insert_all_items [OF ch]
  note l' = insert_all_items [OF l]
  note st' = insert_all_items [OF st]
  have t0: "tickets_for k ?s0 = [r]" by (rule replaced_ticket [OF rk])
  have z0: "rows_for k (comments ?s0) = []" "rows_for k (changelog ?s0) = []"
    "rows_for k (issue_links ?s0) = []" "rows_for k (subtasks ?s0) = []"
    by (simp_all add: delete_children_def deleted_children)
  \<comment> \<open>the comments loop\<close>
  have c1: "length (rows_for k (comments s1)) = length (rows_for k (comments ?s0)) + length (child_items t ''comments'')"
    by (rule insert_each_count [where Q = "\<lambda>r. col r ''ticket_key'' = Text k", OF _ _ c'])
      (auto dest: comment_row_key add_comment_eq simp: rows_for_append)
  have k1: "tickets_for k s1 = tickets_for k ?s0" "changelog s1 = changelog ?s0"
    "issue_links s1 = issue_links ?s0" "subtasks s1 = subtasks ?s0"
    by (rule insert_each_keep [OF _ c'], auto dest: add_comment_eq simp: tickets_for_def)+
  \<comment> \<open>the changelog loop\<close>
  have c2: "length (rows_for k (changelog s2)) = length (rows_for k (changelog s1)) + length (child_items t ''changelog'')"
    by (rule insert_each_count [where Q = "\<lambda>r. col r ''ticket_key'' = Text k", OF _ _ ch'])
      (auto dest: change_row_key simp: rows_for_append add_change_def col_id_cons)
  have k2: "tickets_for k s2 = tickets_for k s1" "comments s2 = comments s1"
    "issue_links s2 = issue_links s1" "subtasks s2 = subtasks s1"
    by (rule insert_each_keep [OF _ ch'], auto simp: tickets_for_def add_change_def)+
  \<comment> \<open>the links loop\<close>
  have c3: "length (rows_for k (issue_links s3)) = length (rows_for k (issue_links s2)) + length (child_items t ''links'')"
    by (rule insert_each_count [where Q = "\<lambda>r. col r ''ticket_key'' = Text k", OF _ _ l'])
      (auto dest: link_row_key simp: rows_for_append add_link_def col_id_cons)
  have k3: "tickets_for k s3 = tickets_for k s2" "comments s3 = comments s2"
    "changelog s3 = changelog s2" "subtasks s3 = subtasks s2"
    by (rule insert_each_keep [OF _ l'], auto simp: tickets_for_def add_link_def)+
  \<comment> \<open>the subtasks loop\<close>
  have c4: "length (rows_for k (subtasks s')) = length (rows_for k (subtasks s3)) + length (child_items t ''subtasks'')"
    by (rule insert_each_count [where Q = "\<lambda>r. col r ''ticket_key'' = Text k", OF _ _ st'])
      (auto dest: subtask_row_key simp: rows_for_append add_subtask_def col_id_cons)
  have k4: "tickets_for k s' = tickets_for k s3" "comments s' = comments s3"
    "changelog s' = changelog s3" "issue_links s' = issue_links s3"
    by (rule insert_each_keep [OF _ st'], auto simp: tickets_for_def add_subtask_def)+
  from t0 z0 c1 k1 c2 k2 c3 k3 c4 k4 show ?thesis by simp
qed


lemma insert_all_again:
  "insert_all (JObj t) k mk add a = Inr a' \<Longrightarrow>
   insert_all (JObj t) k mk add b = insert_each mk add (child_items t k) b"
  by (auto simp: insert_all_def child_items_def py_get_def bnd_def split: sum.splits)

lemma comments_loop_rows:
  "insert_each (comment_row (JStr k)) add_comment xs a = Inr a' \<Longrightarrow>
   \<exists>new. comments a' = comments a @ new \<and> (\<forall>r \<in> set new. col r ''ticket_key'' = Text k)"
proof (induction xs arbitrary: a)
  case Nil
  then show ?case by simp
next
  case (Cons x xs)
  then obtain r a1 where r: "comment_row (JStr k) x = Inr r" and a1: "add_comment r a = Inr a1"
    and rest: "insert_each (comment_row (JStr k)) add_comment xs a1 = Inr a'"
    by (auto simp: bnd_def split: sum.splits)
  from Cons.IH [OF rest] obtain new where "comments a' = comments a1 @ new"
    "\<forall>r \<in> set new. col r ''ticket_key'' = Text k" by blast
  with add_comment_eq [OF a1] comment_row_key [OF r]
  have "comments a' = comments a @ (r # new) \<and> (\<forall>r \<in> set (r # new). col r ''ticket_key'' = Text k)"
    by simp
  then show ?case by blast
qed

lemma comments_loop_same:
  "comments a = comments b \<Longrightarrow> insert_each mk add_comment xs a = Inr a' \<Longrightarrow>
   \<exists>b'. insert_each mk add_comment xs b = Inr b'"
proof (induction xs arbitrary: a b)
  case Nil
  then show ?case by simp
next
  case (Cons x xs)
  from Cons.prems(2) obtain r a1 where r: "mk x = Inr r" and a1: "add_comment r a = Inr a1"
    and rest: "insert_each mk add_comment xs a1 = Inr a'"
    by (auto simp: bnd_def split: sum.splits)
  from a1 Cons.prems(1) have b1: "add_comment r b = Inr (b\<lparr>comments := comments b @ [r]\<rparr>)"
    by (auto simp: add_comment_def split: if_splits)
  from add_comment_eq [OF a1] Cons.prems(1)
  have "comments a1 = comments (b\<lparr>comments := comments b @ [r]\<rparr>)" by simp
  from Cons.IH [OF this rest] r b1 show ?case by simp
qed

lemma total_loop_same:
  "insert_each mk (\<lambda>r s. Inr (f r s)) xs a = Inr a' \<Longrightarrow>
   \<exists>b'. insert_each mk (\<lambda>r s. Inr (f r s)) xs b = Inr b'"
proof (induction xs arbitrary: a b)
  case Nil
  then show ?case by simp
next
  case (Cons x xs)
  then obtain r where r: "mk x = Inr r"
    and rest: "insert_each mk (\<lambda>r s. Inr (f r s)) xs (f r a) = Inr a'"
    by (auto simp: bnd_def split: sum.splits)
  from Cons.IH [OF rest, of "f r b"] r show ?case by simp
qed

lemma reingest_succeeds:
  assumes key: "dict_get t ''key'' JNull = JStr k"
      and ins: "insert_ticket s (JObj t) = Inr s'"
  shows "\<exists>s''. insert_ticket s' (JObj t) = Inr s''"
proof -
  let ?key = "JStr k"
  from ins key obtain r s1 s2 s3 where row: "ticket_row (JObj t) = Inr r"
    and c: "insert_all (JObj t) ''comments'' (comment_row ?key) add_comment
              (delete_children (col r ''key'') (insert_or_replace_ticket r s)) = Inr s1"
    and ch: "insert_all (JObj t) ''changelog'' (change_row ?key) (\<lambda>r s. Inr (add_change r s)) s1 = Inr s2"
    and l: "insert_all (JObj t) ''links'' (link_row ?key) (\<lambda>r s. Inr (add_link r s)) s2 = Inr s3"
    and st: "insert_all (JObj t) ''subtasks'' (subtask_row ?key) (\<lambda>r s. Inr (add_subtask r s)) s3 = Inr s'"
    by (auto simp: insert_ticket_def py_get_def bnd_def split: sum.splits)
  let ?s0 = "delete_children (Text k) (insert_or_replace_ticket r s)"
  let ?t0 = "delete_children (Text k) (insert_or_replace_ticket r s')"
  have rk: "col r ''key'' = Text k" by (rule ticket_row_key [OF row key])
  note c' = insert_all_items [OF c [unfolded rk]]
  note ch' = insert_all_items [OF ch]
  note l' = insert_all_items [OF l]
  note st' = insert_all_items [OF st]
  have "comments s2 = comments s1"
    by (rule insert_each_keep [OF _ ch']) (simp add: add_change_def)
  moreover have "comments s3 = comments s2"
    by (rule insert_each_keep [OF _ l']) (simp add: add_link_def)
  moreover have "comments s' = comments s3"
    by (rule insert_each_keep [OF _ st']) (simp add: add_subtask_def)
  moreover from comments_loop_rows [OF c'] obtain new where
    "comments s1 = comments ?s0 @ new" "\<forall>r \<in> set new. col r ''ticket_key'' = Text k" by blast
  ultimately have final: "comments s' = comments ?s0 @ new"
    and new: "\<forall>r \<in> set new. col r ''ticket_key'' = Text k" by simp_all
  from new have gone: "filter (\<lambda>r. \<not> sql_eq (col r ''ticket_key'') (Text k)) new = []"
    by (auto simp: filter_empty_conv sql_eq_def)
  have same: "comments ?s0 = comments ?t0"
    by (simp add: delete_children_def insert_or_replace_ticket_def tickets_ai_def Let_def final gone)
  from comments_loop_same [OF same c'] obtain u1 where
    u1: "insert_each (comment_row ?key) add_comment (child_items t ''comments'') ?t0 = Inr u1" by blast
  from total_loop_same [OF ch', of u1] obtain u2 where
    u2: "insert_each (change_row ?key) (\<lambda>r s. Inr (add_change r s)) (child_items t ''changelog'') u1 = Inr u2"
    by blast
  from total_loop_same [OF l', of u2] obtain u3 where
    u3: "insert_each (link_row ?key) (\<lambda>r s. Inr (add_link r s)) (child_items t ''links'') u2 = Inr u3"
    by blast
  from total_loop_same [OF st', of u3] obtain u4 where
    u4: "insert_each (subtask_row ?key) (\<lambda>r s. Inr (add_subtask r s)) (child_items t ''subtasks'') u3 = Inr u4"
    by blast
  have "insert_ticket s' (JObj t) = Inr u4"
    using row key rk u1 u2 u3 u4
    by (simp add: insert_ticket_def py_get_def insert_all_again [OF c] insert_all_again [OF ch]
        insert_all_again [OF l] insert_all_again [OF st])
  then show ?thesis by blast
qed

text \<open>
  C1. Let a record with key \<open>k\<close> be ingested, and then a record with the same key (the same
  record, or one that differs in any field but the key). After the second ingestion the
  store holds exactly one ticket row for \<open>k\<close>, and as many comment, changelog, link and
  subtask rows for \<open>k\<close> as the second record has comments, changes, links and subtasks: the
  rows of the first ingestion are not added to them. Ingesting the same record again never
  fails.
\<close>

theorem upsert_idempotent:
  assumes "dict_get t1 ''key'' JNull = JStr k" and "dict_get t2 ''key'' JNull = JStr k"
      and "insert_ticket s (JObj t1) = Inr s1"
  shows "(insert_ticket s1 (JObj t2) = Inr s2 \<longrightarrow>
            length (tickets_for k s2) = 1 \<and>
            length (rows_for k (comments s2)) = length (child_items t2 ''comments'') \<and>
            length (rows_for k (changelog s2)) = length (child_items t2 ''changelog'') \<and>
            length (rows_for k (issue_links s2)) = length (child_items t2 ''links'') \<and>
            length (rows_for k (subtasks s2)) = length (child_items t2 ''subtasks'')) \<and>
         (\<exists>s3. insert_ticket s1 (JObj t1) = Inr s3)"
  using upsert_counts [OF assms(2), of s1 s2] reingest_succeeds [OF assms(1,3)] by blast

definition sample_fields :: "(string \<times> json) list" where
  "sample_fields =
     [(''key'', JStr ''P-1''), (''summary'', JStr ''alpha one''), (''description'', JStr ''d''),
      (''comments'', JArr [JObj [(''id'', JStr ''10''), (''body'', JStr ''hello'')],
                           JObj [(''id'', JStr ''11''), (''body'', JStr ''again'')]]),
      (''changelog'', JArr [JObj [(''field'', JStr ''status'')]]),
      (''links'', JArr []),
      (''subtasks'', JArr [JObj [(''key'', JStr ''P-2'')]])]"

definition once :: store where
  "once = (case insert_ticket empty_store (JObj sample_fields) of Inr s \<Rightarrow> s | Inl e \<Rightarrow> empty_store)"

definition twice :: store where
  "twice = (case insert_ticket once (JObj sample_fields) of Inr s \<Rightarrow> s | Inl e \<Rightarrow> empty_store)"

lemma sample_once: "insert_ticket empty_store (JObj sample_fields) = Inr once"
  by code_simp

lemma sample_twice: "insert_ticket once (JObj sample_fields) = Inr twice"
  by code_simp

theorem upsert_idempotent_witness:
  "dict_get sample_fields ''key'' JNull = JStr ''P-1'' \<and>
   insert_ticket empty_store (JObj sample_fields) = Inr once \<and>
   insert_ticket once (JObj sample_fields) = Inr twice \<and>
   length (tickets_for ''P-1'' twice) = 1 \<and>
   length (rows_for ''P-1'' (comments twice)) = 2 \<and>
   length (rows_for ''P-1'' (changelog twice)) = 1 \<and>
   length (rows_for ''P-1'' (issue_links twice)) = 0 \<and>
   length (rows_for ''P-1'' (subtasks twice)) = 1"
proof -
  have k: "dict_get sample_fields ''key'' JNull = JStr ''P-1''"
    by (simp add: sample_fields_def dict_get_def)
  have n: "length (child_items sample_fields ''comments'') = 2"
    "length (child_items sample_fields ''changelog'') = 1"
    "length (child_items sample_fields ''links'') = 0"
    "length (child_items sample_fields ''subtasks'') = 1"
    by (simp_all add: sample_fields_def child_items_def dict_get_def py_iter_def)
  from upsert_idempotent [OF k k sample_once, of twice] sample_once sample_twice k n
  show ?thesis by simp
qed


section \<open>What is kept of the raw input\<close>

lemma obj_of_lookup:
  "obj_of entries = Inr kvs \<Longrightarrow> distinct (map fst entries) \<Longrightarrow> (k, m) \<in> set entries \<Longrightarrow>
   \<exists>v. m = Inr v \<and> map_of kvs k = Some v"
proof (induction entries arbitrary: kvs)
  case Nil
  then show ?case by simp
next
  case (Cons e entries)
  obtain k0 m0 where e: "e = (k0, m0)" by (cases e)
  with Cons.prems(1) obtain v0 rest where v0: "m0 = Inr v0" and rest: "obj_of entries = Inr rest"
    and kvs: "kvs = (k0, v0) # rest"
    by (auto simp: bnd_def split: sum.splits)
  show ?case
  proof (cases "(k, m) = (k0, m0)")
    case True
    with v0 kvs show ?thesis by simp
  next
    case False
    with Cons.prems(3) e have mem: "(k, m) \<in> set entries" by auto
    with Cons.prems(2) e have "k \<noteq> k0" by (auto simp: image_iff)
    with Cons.IH [OF rest _ mem] Cons.prems(2) kvs show ?thesis by simp
  qed
qed

lemma dict_of_lookup:
  assumes "dict_of entries = Inr p" "distinct (map fst entries)" "(k, Inr v) \<in> set entries"
  shows "py_get p k d = Inr v"
proof -
  from assms(1) obtain kvs where kvs: "obj_of entries = Inr kvs" and p: "p = JObj kvs"
    by (auto simp: dict_of_def bnd_def split: sum.splits)
  from obj_of_lookup [OF kvs assms(2,3)] p show ?thesis
    by (simp add: py_get_def dict_get_def)
qed

lemma dict_of_lookup_m:
  assumes "dict_of entries = Inr p" "distinct (map fst entries)" "(k, m) \<in> set entries"
  shows "m = py_get p k d"
proof -
  from assms(1) obtain kvs where kvs: "obj_of entries = Inr kvs" and p: "p = JObj kvs"
    by (auto simp: dict_of_def bnd_def split: sum.splits)
  from obj_of_lookup [OF kvs assms(2,3)] p show ?thesis
    by (auto simp: py_get_def dict_get_def)
qed

lemma comment_keeps_body:
  assumes "extract_comment_info c = Inr c'"
  shows "py_get c' ''bodyRaw'' JNull = py_get c ''body'' JNull"
proof -
  from assms obtain body_text where
    d: "dict_of
       [(''id'', py_get c ''id'' JNull),
        (''author'', bnd (py_get c ''author'' JNull) extract_user_info),
        (''body'', Inr (JStr body_text)),
        (''bodyRaw'', py_get c ''body'' JNull),
        (''created'', py_get c ''created'' JNull),
        (''updated'', py_get c ''updated'' JNull)] = Inr c'"
    by (auto simp: extract_comment_info_def bnd_def split: sum.splits)
  show ?thesis
    by (rule dict_of_lookup_m [OF d, symmetric]) simp_all
qed

lemma normalize_fields:
  assumes "normalize now issue issue_key flds cmts = Inr p"
  shows "py_get p ''descriptionRaw'' JNull = py_get flds ''description'' JNull"
    and "py_get p ''comments'' JNull = list_of cmts extract_comment_info"
proof -
  from assms obtain description_text entries where
    d: "dict_of ((''key'', Inr issue_key) # (''id'', py_get issue ''id'' JNull) #
         (''self'', py_get issue ''self'' JNull) # (''summary'', py_get flds ''summary'' JNull) #
         (''description'', Inr (JStr description_text)) #
         (''descriptionRaw'', py_get flds ''description'' JNull) # entries) = Inr p"
    and keys: "map fst entries =
      [''status'', ''priority'', ''issueType'', ''project'', ''creator'', ''reporter'', ''assignee'',
       ''created'', ''updated'', ''resolved'', ''resolution'', ''labels'', ''components'',
       ''fixVersions'', ''affectsVersions'', ''comments'', ''changelog'', ''subtasks'', ''parent'',
       ''links'', ''customFields'', ''_exportedAt'']"
    and cm: "(''comments'', list_of cmts extract_comment_info) \<in> set entries"
    by (auto simp: normalize_def bnd_def split: sum.splits)
  show "py_get p ''descriptionRaw'' JNull = py_get flds ''description'' JNull"
    by (rule dict_of_lookup_m [OF d, symmetric]) (simp_all add: keys)
  show "py_get p ''comments'' JNull = list_of cmts extract_comment_info"
    by (rule dict_of_lookup_m [OF d, symmetric]) (simp_all add: keys cm)
qed


lemma list_of_nth:
  assumes "list_of xs f = Inr ys"
  shows "\<exists>cs rs. py_iter xs = Inr cs \<and> ys = JArr rs \<and> length rs = length cs \<and>
           (\<forall>i < length cs. f (cs ! i) = Inr (rs ! i))"
proof -
  from assms obtain cs rs where cs: "py_iter xs = Inr cs" and rs: "map_err f cs = Inr rs"
    and ys: "ys = JArr rs"
    by (auto simp: list_of_def bnd_def split: sum.splits)
  from map_err_nth [OF rs] cs ys show ?thesis by blast
qed

lemma ticket_row_raw:
  assumes "ticket_row p = Inr r" "py_get p ''descriptionRaw'' JNull = Inr v"
  shows "col r ''description_raw'' = Doc v" and "col r ''raw_json'' = Doc p"
proof -
  note row = assms(1) [unfolded ticket_row_def]
  show "col r ''description_raw'' = Doc v"
    using make_row_col [OF row, of 4 "PDumps v" "Doc v"] assms(2)
    by (simp add: ticket_columns_def dumps_def bind_param_def)
  show "col r ''raw_json'' = Doc p"
    using make_row_col [OF row, of 32 "PDumps p" "Doc p"]
    by (simp add: ticket_columns_def dumps_def bind_param_def)
qed

lemma comment_row_raw:
  assumes "comment_row k c = Inr cr" "py_get c ''bodyRaw'' JNull = Inr v"
  shows "col cr ''body_raw'' = Doc v"
  using make_row_col [OF assms(1) [unfolded comment_row_def], of 6 "PDumps v" "Doc v"] assms(2)
  by (simp add: dumps_def bind_param_def)

text \<open>
  C8, as amended. In the normalized record, \<^verbatim>\<open>descriptionRaw\<close> is the raw \<^verbatim>\<open>description\<close>
  of the input, unmodified (null when the input has none), and the \<^verbatim>\<open>bodyRaw\<close> of each
  comment is the raw \<^verbatim>\<open>body\<close> of the fetched comment at the same position, unmodified. The
  store keeps both as they are, in \<^verbatim>\<open>description_raw\<close> and \<^verbatim>\<open>body_raw\<close>. The column
  \<^verbatim>\<open>raw_json\<close> holds the normalized record that was given to \<^verbatim>\<open>insert_ticket\<close>; the raw
  payload of the source is kept nowhere.
\<close>

theorem raw_forms_kept:
  assumes "normalize now issue issue_key (JObj f) cmts = Inr p"
  shows "py_get p ''descriptionRaw'' JNull = Inr (dict_get f ''description'' JNull) \<and>
    (\<exists>cs rs. py_iter cmts = Inr cs \<and> py_get p ''comments'' JNull = Inr (JArr rs) \<and>
       length rs = length cs \<and>
       (\<forall>i < length cs. \<exists>b. py_get (cs ! i) ''body'' JNull = Inr b \<and>
           py_get (rs ! i) ''bodyRaw'' JNull = Inr b \<and>
           (\<forall>cr. comment_row issue_key (rs ! i) = Inr cr \<longrightarrow> col cr ''body_raw'' = Doc b))) \<and>
    (\<forall>r. ticket_row p = Inr r \<longrightarrow>
       col r ''description_raw'' = Doc (dict_get f ''description'' JNull) \<and> col r ''raw_json'' = Doc p)"
proof -
  note nf = normalize_fields [OF assms]
  have d: "py_get p ''descriptionRaw'' JNull = Inr (dict_get f ''description'' JNull)"
    using nf(1) by (simp add: py_get_def)
  from assms obtain kvs where "p = JObj kvs"
    by (auto simp: normalize_def dict_of_def bnd_def split: sum.splits)
  then obtain ys where ys: "py_get p ''comments'' JNull = Inr ys"
    by (simp add: py_get_def)
  with nf(2) have "list_of cmts extract_comment_info = Inr ys" by simp
  from list_of_nth [OF this] ys obtain cs rs where cs: "py_iter cmts = Inr cs"
    and rs: "py_get p ''comments'' JNull = Inr (JArr rs)" "length rs = length cs"
    and each: "\<forall>i < length cs. extract_comment_info (cs ! i) = Inr (rs ! i)"
    by auto
  have bodies: "\<exists>b. py_get (cs ! i) ''body'' JNull = Inr b \<and>
           py_get (rs ! i) ''bodyRaw'' JNull = Inr b \<and>
           (\<forall>cr. comment_row issue_key (rs ! i) = Inr cr \<longrightarrow> col cr ''body_raw'' = Doc b)"
    if i: "i < length cs" for i
  proof -
    from each i have e: "extract_comment_info (cs ! i) = Inr (rs ! i)" by simp
    then obtain b where b: "py_get (cs ! i) ''body'' JNull = Inr b"
      by (cases "cs ! i") (auto simp: extract_comment_info_def py_get_def)
    with comment_keeps_body [OF e] have rb: "py_get (rs ! i) ''bodyRaw'' JNull = Inr b" by simp
    with b comment_row_raw [of issue_key "rs ! i" _ b] show ?thesis by blast
  qed
  from d cs rs bodies ticket_row_raw [of p _ "dict_get f ''description'' JNull"]
  show ?thesis by blast
qed

definition adf_hello :: json where
  "adf_hello = JObj [(''type'', JStr ''doc''), (''content'', JArr [
     JObj [(''type'', JStr ''text''), (''text'', JStr ''hello'')]])]"

definition raw_fields_a :: "(string \<times> json) list" where
  "raw_fields_a = [(''summary'', JStr ''s''), (''description'', adf_hello), (''environment'', JStr ''prod'')]"

definition raw_fields_b :: "(string \<times> json) list" where
  "raw_fields_b = [(''summary'', JStr ''s''), (''description'', adf_hello)]"

definition raw_issue_a :: json where
  "raw_issue_a = JObj [(''key'', JStr ''P-1''), (''fields'', JObj raw_fields_a)]"

definition raw_issue_b :: json where
  "raw_issue_b = JObj [(''key'', JStr ''P-1''), (''fields'', JObj raw_fields_b)]"

definition fetched :: json where
  "fetched = JArr [JObj [(''id'', JStr ''10''), (''body'', adf_hello)]]"

definition record_ab :: json where
  "record_ab = (case normalize ''T'' raw_issue_a (JStr ''P-1'') (JObj raw_fields_a) fetched of
                  Inr p \<Rightarrow> p | Inl e \<Rightarrow> JNull)"

definition row_ab :: row where
  "row_ab = (case ticket_row record_ab of Inr r \<Rightarrow> r | Inl e \<Rightarrow> [])"

lemma ticket_row_ab: "ticket_row record_ab = Inr row_ab"
  by code_simp

lemma normalize_a: "normalize ''T'' raw_issue_a (JStr ''P-1'') (JObj raw_fields_a) fetched = Inr record_ab"
  by code_simp

lemma normalize_b: "normalize ''T'' raw_issue_b (JStr ''P-1'') (JObj raw_fields_b) fetched = Inr record_ab"
  by code_simp

theorem raw_forms_kept_witness:
  "normalize ''T'' raw_issue_a (JStr ''P-1'') (JObj raw_fields_a) fetched = Inr record_ab \<and>
   py_get record_ab ''descriptionRaw'' JNull = Inr adf_hello \<and>
   py_get record_ab ''description'' JNull = Inr (JStr ''hello'') \<and>
   bnd (ticket_row record_ab) (\<lambda>r. Inr (col r ''description_raw'', col r ''raw_json'')) =
     Inr (Doc adf_hello, Doc record_ab)"
proof -
  have d: "dict_get raw_fields_a ''description'' JNull = adf_hello"
    by (simp add: raw_fields_a_def dict_get_def)
  have t: "py_get record_ab ''description'' JNull = Inr (JStr ''hello'')" by code_simp
  obtain r where r: "ticket_row record_ab = Inr r" using ticket_row_ab by blast
  from raw_forms_kept [OF normalize_a] d r
  have "py_get record_ab ''descriptionRaw'' JNull = Inr adf_hello"
    and "col r ''description_raw'' = Doc adf_hello \<and> col r ''raw_json'' = Doc record_ab"
    by auto
  with normalize_a t r show ?thesis by simp
qed

text \<open>
  C8 as stated fails for the raw payload: two source records that differ, one with an
  \<^verbatim>\<open>environment\<close> field and one without, give the same normalized record, and \<^verbatim>\<open>raw_json\<close>
  holds that record; neither source record can be had back from what is kept.
\<close>

theorem raw_payload_not_kept:
  "normalize ''T'' raw_issue_a (JStr ''P-1'') (JObj raw_fields_a) fetched = Inr record_ab \<and>
   normalize ''T'' raw_issue_b (JStr ''P-1'') (JObj raw_fields_b) fetched = Inr record_ab \<and>
   raw_issue_a \<noteq> raw_issue_b \<and>
   ticket_row record_ab = Inr row_ab \<and>
   col row_ab ''raw_json'' = Doc record_ab \<and>
   record_ab \<noteq> raw_issue_a"
proof -
  have ne: "raw_issue_a \<noteq> raw_issue_b"
    by (simp add: raw_issue_a_def raw_issue_b_def raw_fields_a_def raw_fields_b_def)
  have col: "col row_ab ''raw_json'' = Doc record_ab"
    using ticket_row_raw(2) [OF ticket_row_ab] normalize_fields(1) [OF normalize_a]
    by (simp add: py_get_def)
  have "py_get record_ab ''fields'' JNull = Inr JNull" by code_simp
  moreover have "py_get raw_issue_a ''fields'' JNull \<noteq> Inr JNull"
    by (simp add: raw_issue_a_def py_get_def dict_get_def)
  ultimately have "record_ab \<noteq> raw_issue_a" by auto
  with normalize_a normalize_b ne col ticket_row_ab show ?thesis by simp
qed


section \<open>The reader: \<^verbatim>\<open>search\<close>\<close>

text \<open>
  The viewer opens each database and asks whether it has the table \<^verbatim>\<open>tickets_fts\<close>; a
  database is a store with that answer. How SQLite decides \<^verbatim>\<open>MATCH\<close> is not code of the
  program: it is a parameter, a function from the \<^verbatim>\<open>MATCH\<close> expression to an error or to
  the test an indexed document has to pass.
\<close>

type_synonym matcher = "string \<Rightarrow> error + (row \<Rightarrow> bool)"

type_synonym db = "bool \<times> store"

definition fts_query_of :: "string \<Rightarrow> string" where
  "fts_query_of query = (if CHR '' '' \<in> set query then [CHR 0x22] @ query @ [CHR 0x22] else query @ ''*'')"

definition filters_ok :: "string \<Rightarrow> string \<Rightarrow> string \<Rightarrow> row \<Rightarrow> bool" where
  "filters_ok status project issue_type t =
     ((status = [] \<or> sql_eq (col t ''status'') (Text status)) \<and>
      (project = [] \<or> sql_eq (col t ''project_key'') (Text project)) \<and>
      (issue_type = [] \<or> sql_eq (col t ''issue_type'') (Text issue_type)))"

definition select_columns :: "row \<Rightarrow> row" where
  "select_columns t = map (\<lambda>c. (c, col t c))
     [''key'', ''summary'', ''status'', ''status_category'', ''issue_type'', ''project_key'',
      ''assignee_name'', ''created'', ''updated'']"

text \<open>
  The query through the index. A document of the index that passes the test stands for the
  row of \<^verbatim>\<open>tickets\<close> with its \<^verbatim>\<open>rowid\<close>; the join reads its \<^verbatim>\<open>key\<close> from that row, and
  SQLite fails the statement when the table has no row with that \<^verbatim>\<open>rowid\<close>.
\<close>

definition content_row :: "store \<Rightarrow> nat \<Rightarrow> error + row" where
  "content_row s rowid =
     (case find (\<lambda>t. fst t = rowid) (tickets s) of None \<Rightarrow> Inl DatabaseError | Some t \<Rightarrow> Inr (snd t))"

definition fts_select :: "matcher \<Rightarrow> store \<Rightarrow> string \<Rightarrow> string \<Rightarrow> string \<Rightarrow> string \<Rightarrow> error + row list" where
  "fts_select matcher s fts_query status project issue_type =
     bnd (matcher fts_query) (\<lambda>hit.
     bnd (map_err (\<lambda>e. bnd (content_row s (fst e)) (\<lambda>fts.
              Inr (filter (\<lambda>t. sql_eq (col t ''key'') (col fts ''key'') \<and>
                               filters_ok status project issue_type t)
                     (map snd (tickets s)))))
            (filter (\<lambda>e. hit (snd e)) (tickets_fts s))) (\<lambda>found.
     Inr (map select_columns (concat found))))"

text \<open>\<^verbatim>\<open>LIKE\<close>: \<^verbatim>\<open>%\<close> is any run of characters, \<^verbatim>\<open>_\<close> any one, and letters of ASCII match without case.\<close>

definition lower :: "char \<Rightarrow> char" where
  "lower c = (if CHR ''A'' \<le> c \<and> c \<le> CHR ''Z'' then char_of (of_char c + (32::nat)) else c)"

fun like_match :: "string \<Rightarrow> string \<Rightarrow> bool" where
  "like_match [] s = (s = [])"
| "like_match (p # ps) [] = (p = CHR ''%'' \<and> like_match ps [])"
| "like_match (p # ps) (c # cs) =
     (if p = CHR ''%'' then like_match ps (c # cs) \<or> like_match (p # ps) cs
      else (p = CHR ''_'' \<or> lower p = lower c) \<and> like_match ps cs)"

definition sql_like :: "sqlval \<Rightarrow> string \<Rightarrow> bool" where
  "sql_like v pattern = (case v of Text s \<Rightarrow> like_match pattern s | _ \<Rightarrow> False)"

definition like_select :: "store \<Rightarrow> string \<Rightarrow> string \<Rightarrow> string \<Rightarrow> string \<Rightarrow> row list" where
  "like_select s query status project issue_type =
     map select_columns
       (filter (\<lambda>t. (query = [] \<or>
                      sql_like (col t ''key'') (''%'' @ query @ ''%'') \<or>
                      sql_like (col t ''summary'') (''%'' @ query @ ''%'') \<or>
                      sql_like (col t ''description'') (''%'' @ query @ ''%'')) \<and>
                     filters_ok status project issue_type t)
          (map snd (tickets s)))"

definition db_matches :: "matcher \<Rightarrow> string \<Rightarrow> string \<Rightarrow> string \<Rightarrow> string \<Rightarrow> db \<Rightarrow> error + row list" where
  "db_matches matcher query status project issue_type d =
     (if query \<noteq> [] \<and> fst d
      then fts_select matcher (snd d) (fts_query_of query) status project issue_type
      else Inr (like_select (snd d) query status project issue_type))"

text \<open>
  \<^verbatim>\<open>x.get("updated") or ""\<close>: the column has type \<^verbatim>\<open>TEXT\<close>, and holds a text or \<^verbatim>\<open>NULL\<close>.
  \<^verbatim>\<open>list.sort(key=..., reverse=True)\<close> is stable: it reverses, sorts, and reverses.
\<close>

definition updated_key :: "row \<Rightarrow> string" where
  "updated_key x = (case col x ''updated'' of Text s \<Rightarrow> s | _ \<Rightarrow> [])"

definition sort_reverse :: "('a \<Rightarrow> string) \<Rightarrow> 'a list \<Rightarrow> 'a list" where
  "sort_reverse k xs = rev (sort_key k (rev xs))"

text \<open>\<^verbatim>\<open>xs[i:j]\<close>, with Python's reading of negative and oversized bounds.\<close>

definition clamp_index :: "int \<Rightarrow> int \<Rightarrow> int" where
  "clamp_index n i = (if i < 0 then max 0 (n + i) else min i n)"

definition py_slice :: "'a list \<Rightarrow> int \<Rightarrow> int \<Rightarrow> 'a list" where
  "py_slice xs i j =
     (let n = int (length xs); a = clamp_index n i; b = clamp_index n j
      in take (nat (b - a)) (drop (nat a) xs))"

definition per_page :: int where
  "per_page = 50"

definition search :: "db list \<Rightarrow> matcher \<Rightarrow> string \<Rightarrow> string \<Rightarrow> string \<Rightarrow> string \<Rightarrow> int
    \<Rightarrow> error + row list \<times> int" where
  "search dbs matcher query status project issue_type page =
     bnd (map_err (db_matches matcher query status project issue_type) dbs) (\<lambda>found.
       let all_tickets = sort_reverse updated_key (concat found);
           total_pages = (int (length all_tickets) + per_page - 1) div per_page;
           offset = (page - 1) * per_page
       in Inr (py_slice all_tickets offset (offset + per_page), total_pages))"

text \<open>
  A matcher for the two shapes of expression that \<^verbatim>\<open>search\<close> builds from plain words. The
  tokens of a text are its runs of letters and digits, in lower case. \<^verbatim>\<open>word*\<close> passes a
  document that has a token starting with the word; a quoted phrase passes a document that
  has its tokens in a row. Any other expression is refused.
\<close>

definition is_alnum :: "char \<Rightarrow> bool" where
  "is_alnum c = ((CHR ''a'' \<le> c \<and> c \<le> CHR ''z'') \<or> (CHR ''A'' \<le> c \<and> c \<le> CHR ''Z'') \<or>
                 (CHR ''0'' \<le> c \<and> c \<le> CHR ''9''))"

fun tokens_from :: "string \<Rightarrow> string \<Rightarrow> string list" where
  "tokens_from cur [] = (if cur = [] then [] else [cur])"
| "tokens_from cur (c # cs) =
     (if is_alnum c then tokens_from (cur @ [lower c]) cs
      else if cur = [] then tokens_from [] cs
      else cur # tokens_from [] cs)"

definition doc_tokens :: "sqlval \<Rightarrow> string list" where
  "doc_tokens v = (case v of Text s \<Rightarrow> tokens_from [] s | _ \<Rightarrow> [])"

fun phrase_at :: "string list \<Rightarrow> bool \<Rightarrow> string list \<Rightarrow> bool" where
  "phrase_at [] pre ts = True"
| "phrase_at (q # qs) pre [] = False"
| "phrase_at [q] pre (t # ts) = (if pre then take (length q) t = q else t = q)"
| "phrase_at (q # q' # qs) pre (t # ts) = (t = q \<and> phrase_at (q' # qs) pre ts)"

fun phrase_in :: "string list \<Rightarrow> bool \<Rightarrow> string list \<Rightarrow> bool" where
  "phrase_in qs pre [] = False"
| "phrase_in qs pre (t # ts) = (phrase_at qs pre (t # ts) \<or> phrase_in qs pre ts)"

definition doc_has :: "string list \<Rightarrow> bool \<Rightarrow> row \<Rightarrow> bool" where
  "doc_has qs pre d =
     (qs \<noteq> [] \<and> (phrase_in qs pre (doc_tokens (col d ''key'')) \<or>
                 phrase_in qs pre (doc_tokens (col d ''summary'')) \<or>
                 phrase_in qs pre (doc_tokens (col d ''description''))))"

definition words_matcher :: matcher where
  "words_matcher e =
     (if e \<noteq> [] \<and> last e = CHR ''*'' \<and> butlast e \<noteq> [] \<and> list_all is_alnum (butlast e)
        then Inr (doc_has (tokens_from [] (butlast e)) True)
      else if 2 \<le> length e \<and> hd e = CHR 0x22 \<and> last e = CHR 0x22 \<and>
              list_all (\<lambda>c. is_alnum c \<or> c = CHR '' '') (butlast (tl e))
        then Inr (doc_has (tokens_from [] (butlast (tl e))) False)
      else Inl DatabaseError)"



lemma sort_reverse_mset: "mset (sort_reverse k xs) = mset xs"
  by (simp add: sort_reverse_def)

lemma sort_reverse_sorted: "sorted_wrt (\<lambda>a b. k b \<le> k a) (sort_reverse k xs)"
proof -
  have "sorted_wrt (\<lambda>a b. k a \<le> k b) (sort_key k (rev xs))"
    using sorted_sort_key [of k "rev xs"] by (simp add: sorted_wrt_map)
  then show ?thesis
    by (simp add: sort_reverse_def sorted_wrt_rev)
qed

lemma sort_reverse_stable:
  "filter (\<lambda>x. k x = v) (sort_reverse k xs) = filter (\<lambda>x. k x = v) xs"
proof -
  have "filter (\<lambda>x. k x = v) (sort_key k (rev xs)) = filter (\<lambda>x. k x = v) (rev xs)"
    by (rule sort_key_stable)
  then have "rev (filter (\<lambda>x. k x = v) (sort_key k (rev xs))) = filter (\<lambda>x. k x = v) xs"
    by (simp add: rev_filter)
  then show ?thesis
    by (simp add: sort_reverse_def rev_filter)
qed

lemma missing_is_least: "col x ''updated'' = Null \<Longrightarrow> updated_key x = []"
  by (simp add: updated_key_def)

lemma nothing_after_missing:
  assumes "sorted_wrt (\<lambda>a b. updated_key b \<le> updated_key a) xs" "i < j" "j < length xs"
    "updated_key (xs ! i) = []"
  shows "updated_key (xs ! j) = []"
proof -
  from assms(1-3) have "updated_key (xs ! j) \<le> updated_key (xs ! i)"
    by (simp add: sorted_wrt_iff_nth_less)
  with assms(4) show ?thesis by simp
qed

text \<open>
  C9. When \<^verbatim>\<open>search\<close> returns, the tickets it has merged are the matches of the stores,
  concatenated in the order of the stores and then sorted by the \<^verbatim>\<open>updated\<close> text, greatest
  first; tickets with the same text keep the order of the concatenation. A ticket without
  \<^verbatim>\<open>updated\<close> is sorted as the empty string: whatever follows it has no timestamp either.
  The page shown is the slice of length 50 of that list at offset \<open>50 * (page - 1)\<close>.
\<close>

theorem federated_order:
  assumes "search dbs matcher query status project issue_type page = Inr (shown, total_pages)"
  shows "\<exists>found merged.
     map_err (db_matches matcher query status project issue_type) dbs = Inr found \<and>
     merged = sort_reverse updated_key (concat found) \<and>
     mset merged = mset (concat found) \<and>
     sorted_wrt (\<lambda>a b. updated_key b \<le> updated_key a) merged \<and>
     (\<forall>v. filter (\<lambda>x. updated_key x = v) merged = filter (\<lambda>x. updated_key x = v) (concat found)) \<and>
     (\<forall>i j. i < j \<and> j < length merged \<and> col (merged ! i) ''updated'' = Null \<longrightarrow>
            updated_key (merged ! j) = []) \<and>
     shown = py_slice merged ((page - 1) * 50) ((page - 1) * 50 + 50) \<and>
     total_pages = (int (length merged) + 49) div 50"
proof -
  from assms obtain found where found: "map_err (db_matches matcher query status project issue_type) dbs = Inr found"
    and shown: "shown = py_slice (sort_reverse updated_key (concat found)) ((page - 1) * 50) ((page - 1) * 50 + 50)"
    and pages: "total_pages = (int (length (sort_reverse updated_key (concat found))) + 49) div 50"
    by (auto simp: search_def bnd_def Let_def per_page_def split: sum.splits)
  let ?merged = "sort_reverse updated_key (concat found)"
  have s: "sorted_wrt (\<lambda>a b. updated_key b \<le> updated_key a) ?merged"
    by (rule sort_reverse_sorted)
  have last: "\<forall>i j. i < j \<and> j < length ?merged \<and> col (?merged ! i) ''updated'' = Null \<longrightarrow>
            updated_key (?merged ! j) = []"
    using nothing_after_missing [OF s] missing_is_least by blast
  from found shown pages s last sort_reverse_mset [of updated_key "concat found"]
    sort_reverse_stable [of updated_key _ "concat found"]
  show ?thesis by blast
qed

definition ticket_jan :: json where
  "ticket_jan = JObj [(''key'', JStr ''A-1''), (''summary'', JStr ''older''), (''updated'', JStr ''2024-01-01'')]"

definition ticket_jun :: json where
  "ticket_jun = JObj [(''key'', JStr ''B-1''), (''summary'', JStr ''newer''), (''updated'', JStr ''2024-06-01'')]"

definition ticket_undated :: json where
  "ticket_undated = JObj [(''key'', JStr ''A-2''), (''summary'', JStr ''undated'')]"

definition store_a :: store where
  "store_a = (case bnd (insert_ticket empty_store ticket_undated) (\<lambda>s. insert_ticket s ticket_jan) of
                Inr s \<Rightarrow> s | Inl e \<Rightarrow> empty_store)"

definition store_b :: store where
  "store_b = (case insert_ticket empty_store ticket_jun of Inr s \<Rightarrow> s | Inl e \<Rightarrow> empty_store)"

lemma two_stores:
  "bnd (search [(True, store_a), (True, store_b)] words_matcher [] [] [] [] 1)
     (\<lambda>r. Inr (map (\<lambda>x. (col x ''key'', col x ''updated'')) (fst r), snd r)) =
   Inr ([(Text ''B-1'', Text ''2024-06-01''), (Text ''A-1'', Text ''2024-01-01''), (Text ''A-2'', Null)], 1)"
  by code_simp


definition page_ab :: "row list" where
  "page_ab = (case search [(True, store_a), (True, store_b)] words_matcher [] [] [] [] 1 of
                Inr r \<Rightarrow> fst r | Inl e \<Rightarrow> [])"

lemma search_ab: "search [(True, store_a), (True, store_b)] words_matcher [] [] [] [] 1 = Inr (page_ab, 1)"
  by code_simp

lemma page_ab_keys:
  "map (\<lambda>x. (col x ''key'', col x ''updated'')) page_ab =
     [(Text ''B-1'', Text ''2024-06-01''), (Text ''A-1'', Text ''2024-01-01''), (Text ''A-2'', Null)]"
  using two_stores by (simp add: search_ab)

lemma slice_all: "length xs \<le> 50 \<Longrightarrow> py_slice xs 0 50 = xs"
  by (simp add: py_slice_def clamp_index_def Let_def)

theorem federated_order_witness:
  "search [(True, store_a), (True, store_b)] words_matcher [] [] [] [] 1 = Inr (page_ab, 1) \<and>
   map (\<lambda>x. (col x ''key'', col x ''updated'')) page_ab =
     [(Text ''B-1'', Text ''2024-06-01''), (Text ''A-1'', Text ''2024-01-01''), (Text ''A-2'', Null)] \<and>
   sorted_wrt (\<lambda>a b. updated_key b \<le> updated_key a) page_ab"
proof -
  from federated_order [OF search_ab] obtain merged where
    s: "sorted_wrt (\<lambda>a b. updated_key b \<le> updated_key a) merged"
    and p: "page_ab = py_slice merged ((1 - 1) * 50) ((1 - 1) * 50 + 50)"
    and n: "(1::int) = (int (length merged) + 49) div 50"
    by blast
  from n have "length merged \<le> 50" by linarith
  with p have "page_ab = merged" by (simp add: slice_all)
  with s search_ab page_ab_keys show ?thesis by simp
qed

definition found_keys :: "error + row list \<times> int \<Rightarrow> error + sqlval list" where
  "found_keys result = bnd result (\<lambda>r. Inr (map (\<lambda>x. col x ''key'') (fst r)))"

text \<open>
  C2 fails on the code. The first upsert of a ticket puts it in the index, and a search for a
  word of its summary returns its key. A second upsert of the same ticket replaces the row:
  the new row gets a new \<^verbatim>\<open>rowid\<close> and a new document in the index, and the document of the
  old \<^verbatim>\<open>rowid\<close> stays, for a row that is gone. The same search then fails in SQLite, where
  the key was to be found. Rebuilding the index drops the stale document and the search
  returns the key again, so the rebuild does change what a query returns.
\<close>

theorem index_stale_after_reupsert:
  "insert_ticket empty_store (JObj sample_fields) = Inr once \<and>
   insert_ticket once (JObj sample_fields) = Inr twice \<and>
   map fst (tickets once) = [1] \<and> map fst (tickets_fts once) = [1] \<and>
   map fst (tickets twice) = [2] \<and> map fst (tickets_fts twice) = [1, 2] \<and>
   map fst (tickets_fts (rebuild_fts twice)) = [2] \<and>
   found_keys (search [(True, once)] words_matcher ''alpha'' [] [] [] 1) =
     Inr [Text ''P-1''] \<and>
   search [(True, twice)] words_matcher ''alpha'' [] [] [] 1 = Inl DatabaseError \<and>
   found_keys (search [(True, rebuild_fts twice)] words_matcher ''alpha'' [] [] [] 1) =
     Inr [Text ''P-1'']"
proof -
  have ids: "map fst (tickets once) = [1]" "map fst (tickets_fts once) = [1]"
    "map fst (tickets twice) = [2]" "map fst (tickets_fts twice) = [1, 2]"
    "map fst (tickets_fts (rebuild_fts twice)) = [2]"
    by code_simp+
  have q1: "found_keys (search [(True, once)] words_matcher ''alpha'' [] [] [] 1) =
     Inr [Text ''P-1'']"
    by code_simp
  have q2: "search [(True, twice)] words_matcher ''alpha'' [] [] [] 1 = Inl DatabaseError"
    by code_simp
  have q3: "found_keys (search [(True, rebuild_fts twice)] words_matcher ''alpha'' [] [] [] 1) =
     Inr [Text ''P-1'']"
    by code_simp
  from sample_once sample_twice ids q1 q2 q3 show ?thesis by simp
qed

end
